theory Spec2Isabelle
  imports Main "HOL-Library.Sublist"
begin

section \<open>Python values\<close>

text \<open>
  The values that bound parameters and columns carry at run time: \<open>None\<close>, booleans,
  unbounded integers, strings and lists of such values.
\<close>

datatype val = VNone | VBool bool | VInt int | VStr string | VList "val list"

text \<open>
  Exceptions as values. \<open>UnsupportedOperator\<close> and \<open>UnsupportedExpression\<close> are the two
  \<open>TypeError\<close>s raised by \<open>_serialize\<close> (the second carries the class name of the
  offending node); \<open>OperatorMapKeyError\<close> is the \<open>KeyError\<close> of \<open>OPERATOR_MAP[...]\<close>;
  \<open>MissingColumnValue\<close> is the \<open>KeyError\<close> of \<open>column_values[value]\<close>; \<open>StackUnderflow\<close> is
  the \<open>IndexError\<close> of \<open>deque.pop\<close> on an empty deque; \<open>OperandTypeError\<close> is a
  \<open>TypeError\<close> raised while calling an operator function.
\<close>

datatype error =
    UnsupportedOperator
  | UnsupportedExpression string
  | OperatorMapKeyError
  | AttributeError
  | MissingColumnValue
  | StackUnderflow
  | OperandTypeError
  | NotImplementedError

section \<open>Operators\<close>

text \<open>
  The callables that occur as \<open>expr.operator\<close> or as values of \<open>OPERATOR_MAP\<close>.
  SQLAlchemy's \<open>operators.eq\<close>, \<open>lt\<close>, \<open>and_\<close>, \<open>or_\<close>, \<open>inv\<close>, ... are the functions of
  Python's \<open>operator\<close> module themselves; \<open>in_op\<close>, \<open>is_\<close>, \<open>isnot\<close>, \<open>istrue\<close>,
  \<open>isfalse\<close> are defined by SQLAlchemy; \<open>Custom_op\<close> is an instance of
  \<open>operators.custom_op\<close>; \<open>Contains\<close> is the lambda \<open>lambda left, right: left in right\<close>
  of \<open>OPERATOR_MAP\<close>.
\<close>

datatype callable =
    Op_eq | Op_ne | Op_lt | Op_le | Op_gt | Op_ge
  | Op_and | Op_or | Op_inv | Op_not
  | Contains
  | Sql_in_op | Sql_is | Sql_isnot | Sql_istrue | Sql_isfalse
  | Custom_op string

text \<open>
  \<open>OPERATOR_MAP\<close>: a dict from SQLAlchemy operators to Python functions; the entry of
  \<open>istrue\<close> is \<open>None\<close> (inner \<open>None\<close>), every other operator is absent (outer \<open>None\<close>).
\<close>

fun OPERATOR_MAP :: "callable \<Rightarrow> callable option option" where
  "OPERATOR_MAP Sql_in_op = Some (Some Contains)"
| "OPERATOR_MAP Sql_is = Some (Some Op_eq)"
| "OPERATOR_MAP Sql_isnot = Some (Some Op_ne)"
| "OPERATOR_MAP Sql_istrue = Some None"
| "OPERATOR_MAP Sql_isfalse = Some (Some Op_not)"
| "OPERATOR_MAP _ = None"

fun is_custom_op :: "callable \<Rightarrow> bool" where
  "is_custom_op (Custom_op _) = True"
| "is_custom_op _ = False"

section \<open>Expression trees\<close>

datatype sqltype = Boolean | Integer | Unicode

record column =
  column_name :: string
  column_type :: sqltype

text \<open>
  The node classes that \<open>_serialize\<close> tells apart, in a closed datatype. An \<open>AsBoolean\<close>
  wraps a column; a \<open>BinaryExpression\<close> is built as \<open>BinaryExpression(left, right,
  operator)\<close>; \<open>Unsupported\<close> stands for a node of any other class and carries the class
  name.
\<close>

datatype expr =
    BindParameter val
  | Grouping "expr list"
  | Null
  | Column (the_Column: column)
  | AsBoolean column callable
  | UnaryExpression expr callable
  | BooleanClauseList callable "expr list"
  | BinaryExpression expr expr callable
  | Unsupported string

text \<open>\<open>column.isnot(None)\<close> and \<open>column.is_(None)\<close> of SQLAlchemy.\<close>

definition isnot_None :: "column \<Rightarrow> expr" where
  "isnot_None c = BinaryExpression (Column c) Null Sql_isnot"

definition is_None :: "column \<Rightarrow> expr" where
  "is_None c = BinaryExpression (Column c) Null Sql_is"

section \<open>Symbols\<close>

text \<open>The Python object held in a symbol's \<open>value\<close> slot.\<close>

datatype payload = PColumn column | PCallable callable | PValue val

datatype SymbolType = T_column | T_literal | T_operator

datatype Symbol = Symbol (symbol_value: payload) (symbol_arity: "nat option")

fun determine_type :: "payload \<Rightarrow> SymbolType" where
  "determine_type (PColumn _) = T_column"
| "determine_type (PCallable _) = T_operator"
| "determine_type (PValue _) = T_literal"

definition symbol_type :: "Symbol \<Rightarrow> SymbolType" where
  "symbol_type s = determine_type (symbol_value s)"

section \<open>The compiler\<close>

text \<open>
  \<open>[element.value for element in expr.element]\<close>: only a \<open>BindParameter\<close> has a
  \<open>value\<close> attribute.
\<close>

fun element_values :: "expr list \<Rightarrow> error + val list" where
  "element_values [] = Inr []"
| "element_values (BindParameter v # es) =
     (case element_values es of Inl e \<Rightarrow> Inl e | Inr vs \<Rightarrow> Inr (v # vs))"
| "element_values (_ # es) = Inl AttributeError"

text \<open>The payload of the operator symbol of a binary node: \<open>OPERATOR_MAP.get(op, op)\<close>.\<close>

definition binary_payload :: "callable \<Rightarrow> payload" where
  "binary_payload op =
     (case OPERATOR_MAP op of
        None \<Rightarrow> PCallable op
      | Some None \<Rightarrow> PValue VNone
      | Some (Some f) \<Rightarrow> PCallable f)"

function (sequential) serialize :: "expr \<Rightarrow> bool \<Rightarrow> error + Symbol list"
  and serialize_clauses :: "expr list \<Rightarrow> bool \<Rightarrow> error + Symbol list"
where
  "serialize (BindParameter v) force_bool = Inr [Symbol (PValue v) None]"
| "serialize (Grouping els) force_bool =
     (case element_values els of
        Inl e \<Rightarrow> Inl e
      | Inr vs \<Rightarrow> Inr [Symbol (PValue (VList vs)) None])"
| "serialize Null force_bool = Inr [Symbol (PValue VNone) None]"
| "serialize (Column c) force_bool =
     (if force_bool \<and> column_type c \<noteq> Boolean
      then serialize (isnot_None c) False
      else Inr [Symbol (PColumn c) None])"
| "serialize (AsBoolean element op) force_bool =
     (case OPERATOR_MAP op of
        None \<Rightarrow> Inl OperatorMapKeyError
      | Some None \<Rightarrow> Inr [Symbol (PColumn element) None]
      | Some (Some func) \<Rightarrow>
          Inr [Symbol (PColumn element) None, Symbol (PCallable func) (Some 1)])"
| "serialize (UnaryExpression target op) force_bool =
     (if force_bool \<and> op = Op_inv \<and> is_Column target
      then serialize (is_None (the_Column target)) False
      else (case serialize target force_bool of
              Inl e \<Rightarrow> Inl e
            | Inr ts \<Rightarrow> Inr (ts @ [Symbol (PCallable op) (Some 1)])))"
| "serialize (BooleanClauseList op clauses) force_bool =
     (case serialize_clauses clauses force_bool of
        Inl e \<Rightarrow> Inl e
      | Inr cs \<Rightarrow> Inr (cs @ [Symbol (PCallable op) (Some (length clauses))]))"
| "serialize (BinaryExpression left right op) force_bool =
     (if is_custom_op op then Inl UnsupportedOperator
      else (case serialize right False of
              Inl e \<Rightarrow> Inl e
            | Inr rs \<Rightarrow>
                (case serialize left False of
                   Inl e \<Rightarrow> Inl e
                 | Inr ls \<Rightarrow> Inr (rs @ ls @ [Symbol (binary_payload op) (Some 2)]))))"
| "serialize (Unsupported expr_type) force_bool = Inl (UnsupportedExpression expr_type)"
| "serialize_clauses [] force_bool = Inr []"
| "serialize_clauses (clause # clauses) force_bool =
     (case serialize clause force_bool of
        Inl e \<Rightarrow> Inl e
      | Inr cs \<Rightarrow>
          (case serialize_clauses clauses force_bool of
             Inl e \<Rightarrow> Inl e
           | Inr rest \<Rightarrow> Inr (cs @ rest)))"
  by pat_completeness auto

termination
  by (relation "inv_image (less_than <*lex*> less_than)
        (\<lambda>x. case x of
           Inl (e, fb) \<Rightarrow> (if fb then 1 else 0 :: nat, size e)
         | Inr (es, fb) \<Rightarrow> (if fb then 1 else 0 :: nat, size_list size es))")
     (auto simp: isnot_None_def is_None_def)

section \<open>The coercion rewrite\<close>

text \<open>
  \<open>rephrase_as_boolean\<close>, as the tree it returns. \<open>AsBoolean\<close> is a subclass of
  \<open>UnaryExpression\<close>, so an \<open>AsBoolean\<close> node takes the second branch of the source.
\<close>

fun rephrase_as_boolean :: "expr \<Rightarrow> expr" where
  "rephrase_as_boolean (Column c) =
     (if column_type c \<noteq> Boolean then isnot_None c else Column c)"
| "rephrase_as_boolean (UnaryExpression element op) =
     (if op = Op_inv \<and> is_Column element then is_None (the_Column element)
      else UnaryExpression element op)"
| "rephrase_as_boolean (AsBoolean element op) =
     (if op = Op_inv then is_None element else AsBoolean element op)"
| "rephrase_as_boolean (BooleanClauseList op clauses) =
     BooleanClauseList op (map rephrase_as_boolean clauses)"
| "rephrase_as_boolean expr = expr"

text \<open>
  The tree that the caller's object denotes after \<open>rephrase_as_boolean\<close> has run on it:
  a clause list is rewritten in place and returned, so it is the rewritten tree; an
  object of any other class is left as it was.
\<close>

fun expression_after :: "expr \<Rightarrow> expr" where
  "expression_after (BooleanClauseList op clauses) =
     rephrase_as_boolean (BooleanClauseList op clauses)"
| "expression_after expr = expr"

section \<open>Compiled expressions\<close>

record Expression =
  sql :: expr
  serialized :: "Symbol list"

text \<open>
  \<open>Expression.__init__\<close>. The rewrite runs first, so with \<open>force_bool\<close> the serializer
  walks the tree as the rewrite left it.
\<close>

definition Expression_init :: "expr \<Rightarrow> bool \<Rightarrow> error + Expression" where
  "Expression_init expression force_bool =
     (let sql_tree = (if force_bool then rephrase_as_boolean expression else expression);
          expression' = (if force_bool then expression_after expression else expression)
      in case serialize expression' force_bool of
           Inl e \<Rightarrow> Inl e
         | Inr symbols \<Rightarrow> Inr \<lparr>sql = sql_tree, serialized = symbols\<rparr>)"

definition columns :: "Expression \<Rightarrow> payload set" where
  "columns self =
     set (map symbol_value (filter (\<lambda>symbol. symbol_type symbol = T_column) (serialized self)))"

section \<open>Python's operators on values\<close>

unbundle bit_operations_syntax

text \<open>\<open>bool\<close> is a subclass of \<open>int\<close>: \<open>True\<close> is 1 and \<open>False\<close> is 0.\<close>

fun as_int :: "val \<Rightarrow> int option" where
  "as_int (VInt i) = Some i"
| "as_int (VBool b) = Some (if b then 1 else 0)"
| "as_int _ = None"

fun norm :: "val \<Rightarrow> val" where
  "norm (VBool b) = VInt (if b then 1 else 0)"
| "norm (VList xs) = VList (map norm xs)"
| "norm v = v"

text \<open>\<open>a == b\<close>\<close>

definition py_eq :: "val \<Rightarrow> val \<Rightarrow> bool" where
  "py_eq a b = (norm a = norm b)"

text \<open>\<open>bool(a)\<close>\<close>

fun truthy :: "val \<Rightarrow> bool" where
  "truthy VNone = False"
| "truthy (VBool b) = b"
| "truthy (VInt i) = (i \<noteq> 0)"
| "truthy (VStr s) = (s \<noteq> [])"
| "truthy (VList xs) = (xs \<noteq> [])"

text \<open>Strings are ordered lexicographically by code point.\<close>

fun str_lt :: "string \<Rightarrow> string \<Rightarrow> bool" where
  "str_lt [] [] = False"
| "str_lt [] (y # ys) = True"
| "str_lt (x # xs) [] = False"
| "str_lt (x # xs) (y # ys) =
     ((of_char x :: nat) < of_char y \<or> (x = y \<and> str_lt xs ys))"

text \<open>
  The outcome of an ordering operator on two values of a total order, from whether the
  first is below the second and whether they are equal.
\<close>

fun ordering :: "callable \<Rightarrow> bool \<Rightarrow> bool \<Rightarrow> bool" where
  "ordering Op_lt below equal = below"
| "ordering Op_le below equal = (below \<or> equal)"
| "ordering Op_gt below equal = (\<not> below \<and> \<not> equal)"
| "ordering Op_ge below equal = (\<not> below)"
| "ordering _ below equal = False"

text \<open>
  \<open>a < b\<close>, \<open>a <= b\<close>, \<open>a > b\<close>, \<open>a >= b\<close>: numbers with numbers, strings with strings,
  lists with lists (at the first pair of unequal items, else by length); anything else
  raises \<open>TypeError\<close>.
\<close>

fun rich_compare :: "callable \<Rightarrow> val \<Rightarrow> val \<Rightarrow> error + bool"
  and rich_compare_list :: "callable \<Rightarrow> val list \<Rightarrow> val list \<Rightarrow> error + bool"
where
  "rich_compare op (VStr s) (VStr t) = Inr (ordering op (str_lt s t) (s = t))"
| "rich_compare op (VList xs) (VList ys) = rich_compare_list op xs ys"
| "rich_compare op a b =
     (case (as_int a, as_int b) of
        (Some i, Some j) \<Rightarrow> Inr (ordering op (i < j) (i = j))
      | _ \<Rightarrow> Inl OperandTypeError)"
| "rich_compare_list op [] [] = Inr (ordering op False True)"
| "rich_compare_list op [] (y # ys) = Inr (ordering op True False)"
| "rich_compare_list op (x # xs) [] = Inr (ordering op False False)"
| "rich_compare_list op (x # xs) (y # ys) =
     (if py_eq x y then rich_compare_list op xs ys else rich_compare op x y)"

text \<open>\<open>a & b\<close> and \<open>a | b\<close>\<close>

fun bitwise :: "callable \<Rightarrow> val \<Rightarrow> val \<Rightarrow> error + val" where
  "bitwise op (VBool p) (VBool q) = Inr (VBool (if op = Op_and then p \<and> q else p \<or> q))"
| "bitwise op a b =
     (case (as_int a, as_int b) of
        (Some i, Some j) \<Rightarrow> Inr (VInt (if op = Op_and then i AND j else i OR j))
      | _ \<Rightarrow> Inl OperandTypeError)"

text \<open>\<open>left in right\<close>\<close>

fun py_contains :: "val \<Rightarrow> val \<Rightarrow> error + val" where
  "py_contains left (VList xs) = Inr (VBool (list_ex (py_eq left) xs))"
| "py_contains (VStr t) (VStr s) = Inr (VBool (sublist t s))"
| "py_contains left right = Inl OperandTypeError"

text \<open>
  Calling an operator function on the popped arguments. SQLAlchemy's own operator
  functions delegate to a method of their first argument, which a plain value does not
  have; \<open>istrue\<close> and \<open>isfalse\<close> raise \<open>NotImplementedError\<close>. A wrong number of arguments
  is a \<open>TypeError\<close>.
\<close>

fun call :: "callable \<Rightarrow> val list \<Rightarrow> error + val" where
  "call Op_eq [a, b] = Inr (VBool (py_eq a b))"
| "call Op_ne [a, b] = Inr (VBool (\<not> py_eq a b))"
| "call Op_lt [a, b] = map_sum id VBool (rich_compare Op_lt a b)"
| "call Op_le [a, b] = map_sum id VBool (rich_compare Op_le a b)"
| "call Op_gt [a, b] = map_sum id VBool (rich_compare Op_gt a b)"
| "call Op_ge [a, b] = map_sum id VBool (rich_compare Op_ge a b)"
| "call Op_and [a, b] = bitwise Op_and a b"
| "call Op_or [a, b] = bitwise Op_or a b"
| "call Op_inv [a] = (case as_int a of Some i \<Rightarrow> Inr (VInt (NOT i)) | None \<Rightarrow> Inl OperandTypeError)"
| "call Op_not [a] = Inr (VBool (\<not> truthy a))"
| "call Contains [left, right] = py_contains left right"
| "call Sql_in_op [a, b] = Inl AttributeError"
| "call Sql_is [a, b] = Inl AttributeError"
| "call Sql_isnot [a, b] = Inl AttributeError"
| "call Sql_istrue [a] = Inl NotImplementedError"
| "call Sql_isfalse [a] = Inl NotImplementedError"
| "call (Custom_op name) [a, b] = Inl AttributeError"
| "call f args = Inl OperandTypeError"

section \<open>The stack evaluator\<close>

text \<open>
  The stack is a list with its top at the head. \<open>popn\<close> pops one value at a time, the
  most recently pushed first, and fails when the stack runs out.
\<close>

fun popn :: "nat \<Rightarrow> val list \<Rightarrow> error + (val list \<times> val list)" where
  "popn 0 stack = Inr ([], stack)"
| "popn (Suc n) [] = Inl StackUnderflow"
| "popn (Suc n) (v # stack) =
     (case popn n stack of
        Inl e \<Rightarrow> Inl e
      | Inr (args, rest) \<Rightarrow> Inr (v # args, rest))"

text \<open>
  One round of the loop of \<open>evaluate\<close>. A symbol's type is fixed by the class of its
  value, so the three branches on \<open>itype\<close> are the three constructors of the payload.
\<close>

fun step :: "(column \<rightharpoonup> val) \<Rightarrow> Symbol \<Rightarrow> val list \<Rightarrow> error + val list" where
  "step column_values (Symbol (PValue v) arity) stack = Inr (v # stack)"
| "step column_values (Symbol (PColumn c) arity) stack =
     (case column_values c of
        None \<Rightarrow> Inl MissingColumnValue
      | Some v \<Rightarrow> Inr (v # stack))"
| "step column_values (Symbol (PCallable f) arity) stack =
     (case arity of
        None \<Rightarrow> Inl OperandTypeError
      | Some n \<Rightarrow>
          (case popn n stack of
             Inl e \<Rightarrow> Inl e
           | Inr (args, rest) \<Rightarrow>
               (case call f args of
                  Inl e \<Rightarrow> Inl e
                | Inr v \<Rightarrow> Inr (v # rest))))"

fun run :: "(column \<rightharpoonup> val) \<Rightarrow> Symbol list \<Rightarrow> val list \<Rightarrow> error + val list" where
  "run column_values [] stack = Inr stack"
| "run column_values (symbol # symbols) stack =
     (case step column_values symbol stack of
        Inl e \<Rightarrow> Inl e
      | Inr stack' \<Rightarrow> run column_values symbols stack')"

text \<open>\<open>stack.pop()\<close>\<close>

fun pop :: "val list \<Rightarrow> error + val" where
  "pop [] = Inl StackUnderflow"
| "pop (v # stack) = Inr v"

definition evaluate :: "Expression \<Rightarrow> (column \<rightharpoonup> val) \<Rightarrow> error + val" where
  "evaluate self column_values =
     (case run column_values (serialized self) [] of
        Inl e \<Rightarrow> Inl e
      | Inr stack \<Rightarrow> pop stack)"

text \<open>\<open>Expression(expression, force_bool).evaluate(column_values)\<close>\<close>

definition compile_evaluate :: "expr \<Rightarrow> bool \<Rightarrow> (column \<rightharpoonup> val) \<Rightarrow> error + val" where
  "compile_evaluate expression force_bool column_values =
     (case Expression_init expression force_bool of
        Inl e \<Rightarrow> Inl e
      | Inr self \<Rightarrow> evaluate self column_values)"

text \<open>
  Trees in which no binary node that the serializer visits carries the \<open>istrue\<close>
  operator, the one key of \<open>OPERATOR_MAP\<close> whose entry is \<open>None\<close>.
\<close>

fun no_istrue_binary :: "expr \<Rightarrow> bool" where
  "no_istrue_binary (BinaryExpression left right op) =
     (op \<noteq> Sql_istrue \<and> no_istrue_binary left \<and> no_istrue_binary right)"
| "no_istrue_binary (UnaryExpression target op) = no_istrue_binary target"
| "no_istrue_binary (BooleanClauseList op clauses) = list_all no_istrue_binary clauses"
| "no_istrue_binary expr = True"

section \<open>Expression trees as objects in a store\<close>

text \<open>
  \<open>rephrase_as_boolean\<close> assigns to \<open>expr.clauses\<close>, so what the caller sees afterwards
  depends on which objects are shared. Here every node is an object in a store,
  addressed by a reference, and holds references to its children. A new object is
  allocated at the end of the store.
\<close>

type_synonym ref = nat

datatype object =
    OBindParameter val
  | OGrouping "ref list"
  | ONull
  | OColumn column
  | OAsBoolean ref callable
  | OUnaryExpression ref callable
  | OBooleanClauseList callable "ref list"
  | OBinaryExpression ref ref callable
  | OUnsupported string

type_synonym heap = "object list"

definition lookup :: "heap \<Rightarrow> ref \<Rightarrow> object option" where
  "lookup h r = (if r < length h then Some (h ! r) else None)"

definition allocate :: "heap \<Rightarrow> object \<Rightarrow> ref \<times> heap" where
  "allocate h obj = (length h, h @ [obj])"

text \<open>\<open>column.isnot(None)\<close> and \<open>column.is_(None)\<close> build a \<open>Null\<close> and a binary node.\<close>

definition compare_None_h :: "callable \<Rightarrow> heap \<Rightarrow> ref \<Rightarrow> ref \<times> heap" where
  "compare_None_h op h col =
     (let (null_ref, h1) = allocate h ONull
      in allocate h1 (OBinaryExpression col null_ref op))"

fun is_OColumn :: "object option \<Rightarrow> bool" where
  "is_OColumn (Some (OColumn c)) = True"
| "is_OColumn _ = False"

text \<open>
  \<open>rephrase_as_boolean\<close> on the store. The first argument bounds the depth of the
  recursion, as Python's recursion limit does; the result is \<open>None\<close> when the bound is
  reached or a reference points outside the store.
\<close>

fun rephrase_as_boolean_h :: "nat \<Rightarrow> heap \<Rightarrow> ref \<Rightarrow> (ref \<times> heap) option"
  and rephrase_clauses_h :: "nat \<Rightarrow> heap \<Rightarrow> ref list \<Rightarrow> (ref list \<times> heap) option"
where
  "rephrase_as_boolean_h 0 h expr = None"
| "rephrase_as_boolean_h (Suc n) h expr =
     (case lookup h expr of
        None \<Rightarrow> None
      | Some (OColumn c) \<Rightarrow>
          if column_type c \<noteq> Boolean then Some (compare_None_h Sql_isnot h expr)
          else Some (expr, h)
      | Some (OUnaryExpression element op) \<Rightarrow>
          if op = Op_inv \<and> is_OColumn (lookup h element)
          then Some (compare_None_h Sql_is h element)
          else Some (expr, h)
      | Some (OAsBoolean element op) \<Rightarrow>
          if op = Op_inv \<and> is_OColumn (lookup h element)
          then Some (compare_None_h Sql_is h element)
          else Some (expr, h)
      | Some (OBooleanClauseList op clauses) \<Rightarrow>
          (case rephrase_clauses_h n h clauses of
             None \<Rightarrow> None
           | Some (clauses', h') \<Rightarrow> Some (expr, h'[expr := OBooleanClauseList op clauses']))
      | Some _ \<Rightarrow> Some (expr, h))"
| "rephrase_clauses_h n h [] = Some ([], h)"
| "rephrase_clauses_h n h (clause # clauses) =
     (case rephrase_as_boolean_h n h clause of
        None \<Rightarrow> None
      | Some (clause', h1) \<Rightarrow>
          (case rephrase_clauses_h n h1 clauses of
             None \<Rightarrow> None
           | Some (clauses', h2) \<Rightarrow> Some (clause' # clauses', h2)))"

text \<open>The tree that a reference denotes in a store, read to a bounded depth.\<close>

fun tree_of :: "nat \<Rightarrow> heap \<Rightarrow> ref \<Rightarrow> expr option"
  and trees_of :: "nat \<Rightarrow> heap \<Rightarrow> ref list \<Rightarrow> expr list option"
where
  "tree_of 0 h r = None"
| "tree_of (Suc n) h r =
     (case lookup h r of
        None \<Rightarrow> None
      | Some (OBindParameter v) \<Rightarrow> Some (BindParameter v)
      | Some (OGrouping elements) \<Rightarrow> map_option Grouping (trees_of n h elements)
      | Some ONull \<Rightarrow> Some Null
      | Some (OColumn c) \<Rightarrow> Some (Column c)
      | Some (OAsBoolean element op) \<Rightarrow>
          (case lookup h element of
             Some (OColumn c) \<Rightarrow> Some (AsBoolean c op)
           | _ \<Rightarrow> None)
      | Some (OUnaryExpression element op) \<Rightarrow>
          map_option (\<lambda>t. UnaryExpression t op) (tree_of n h element)
      | Some (OBooleanClauseList op clauses) \<Rightarrow>
          map_option (BooleanClauseList op) (trees_of n h clauses)
      | Some (OBinaryExpression left right op) \<Rightarrow>
          (case tree_of n h left of
             None \<Rightarrow> None
           | Some l \<Rightarrow>
               (case tree_of n h right of
                  None \<Rightarrow> None
                | Some r' \<Rightarrow> Some (BinaryExpression l r' op)))
      | Some (OUnsupported name) \<Rightarrow> Some (Unsupported name))"
| "trees_of n h [] = Some []"
| "trees_of n h (r # rs) =
     (case tree_of n h r of
        None \<Rightarrow> None
      | Some t \<Rightarrow>
          (case trees_of n h rs of
             None \<Rightarrow> None
           | Some ts \<Rightarrow> Some (t # ts)))"

record Expression_h =
  sql_ref :: ref
  serialized_h :: "Symbol list"

text \<open>
  \<open>Expression.__init__\<close> on the store: the rewrite, then the serializer on the tree
  that the caller's reference denotes afterwards. The store is returned as the call
  leaves it, also when the serializer raises.
\<close>

definition Expression_init_h ::
  "nat \<Rightarrow> heap \<Rightarrow> ref \<Rightarrow> bool \<Rightarrow> ((error + Expression_h) \<times> heap) option" where
  "Expression_init_h fuel h expression force_bool =
     (case (if force_bool then rephrase_as_boolean_h fuel h expression
            else Some (expression, h)) of
        None \<Rightarrow> None
      | Some (sql_obj, h') \<Rightarrow>
          (case tree_of fuel h' expression of
             None \<Rightarrow> None
           | Some tree \<Rightarrow>
               Some (case serialize tree force_bool of
                       Inl e \<Rightarrow> Inl e
                     | Inr symbols \<Rightarrow> Inr \<lparr>sql_ref = sql_obj, serialized_h = symbols\<rparr>,
                     h')))"

text \<open>
  The clause-list objects that a reference reaches, in the order in which they are
  met and with repetitions. The list is distinct when no clause-list object occurs
  twice under the reference, that is, when the clause lists form a tree.
\<close>

fun clause_refs :: "nat \<Rightarrow> heap \<Rightarrow> ref \<Rightarrow> ref list"
  and clause_refs_list :: "nat \<Rightarrow> heap \<Rightarrow> ref list \<Rightarrow> ref list"
where
  "clause_refs 0 h r = []"
| "clause_refs (Suc n) h r =
     (case lookup h r of
        Some (OGrouping elements) \<Rightarrow> clause_refs_list n h elements
      | Some (OUnaryExpression element op) \<Rightarrow> clause_refs n h element
      | Some (OBooleanClauseList op clauses) \<Rightarrow> r # clause_refs_list n h clauses
      | Some (OBinaryExpression left right op) \<Rightarrow> clause_refs n h left @ clause_refs n h right
      | _ \<Rightarrow> [])"
| "clause_refs_list n h [] = []"
| "clause_refs_list n h (r # rs) = clause_refs n h r @ clause_refs_list n h rs"

fun is_clause_list :: "object \<Rightarrow> bool" where
  "is_clause_list (OBooleanClauseList op clauses) = True"
| "is_clause_list _ = False"

text \<open>
  \<open>rewrites_only h h' M\<close>: the store \<open>h'\<close> is \<open>h\<close> with objects added at the end and with
  no object changed except clause lists at the references in \<open>M\<close>.
\<close>

definition rewrites_only :: "heap \<Rightarrow> heap \<Rightarrow> ref set \<Rightarrow> bool" where
  "rewrites_only h h' M =
     (length h \<le> length h' \<and>
      (\<forall>a<length h. h' ! a = h ! a \<or> (a \<in> M \<and> is_clause_list (h ! a))))"

text \<open>The exceptions that calling an operator function can raise.\<close>

fun raised_by_operator :: "error \<Rightarrow> bool" where
  "raised_by_operator OperandTypeError = True"
| "raised_by_operator AttributeError = True"
| "raised_by_operator NotImplementedError = True"
| "raised_by_operator _ = False"

text \<open>
  The effect of a symbol sequence on the stack: it either stops with an exception of an
  operator function or of the column lookup, or leaves the stack it started from with
  at least \<open>n\<close> values on top, and exactly \<open>n\<close> when \<open>exact\<close> holds.
\<close>

definition pushes :: "(column \<rightharpoonup> val) \<Rightarrow> Symbol list \<Rightarrow> val list \<Rightarrow> nat \<Rightarrow> bool \<Rightarrow> bool" where
  "pushes m symbols stack n exact =
     (case run m symbols stack of
        Inl err \<Rightarrow> raised_by_operator err \<or> err = MissingColumnValue
      | Inr stack' \<Rightarrow> \<exists>vs. stack' = vs @ stack \<and> n \<le> length vs \<and> (exact \<longrightarrow> length vs = n))"

section \<open>Basic facts\<close>

lemma norm_eq_VNone [simp]: "norm v = VNone \<longleftrightarrow> v = VNone"
  by (cases v) auto

lemma py_eq_VNone [simp]: "py_eq v VNone \<longleftrightarrow> v = VNone"
  by (simp add: py_eq_def)

lemma popn_two [simp]: "popn 2 (a # b # stack) = Inr ([a, b], stack)"
  by (simp add: numeral_2_eq_2)

lemma popn_one [simp]: "popn 1 (a # stack) = Inr ([a], stack)"
  by simp

lemma run_append:
  "run m (xs @ ys) stack =
     (case run m xs stack of Inl e \<Rightarrow> Inl e | Inr stack' \<Rightarrow> run m ys stack')"
  by (induction xs arbitrary: stack) (auto split: sum.splits)

lemma serialize_isnot_None:
  "serialize (isnot_None c) fb =
     Inr [Symbol (PValue VNone) None, Symbol (PColumn c) None,
          Symbol (PCallable Op_ne) (Some 2)]"
  by (simp add: isnot_None_def binary_payload_def)

lemma serialize_is_None:
  "serialize (is_None c) fb =
     Inr [Symbol (PValue VNone) None, Symbol (PColumn c) None,
          Symbol (PCallable Op_eq) (Some 2)]"
  by (simp add: is_None_def binary_payload_def)

section \<open>Stack effect of a serialized tree\<close>

lemma rich_compare_error:
  "rich_compare op a b = Inl e \<Longrightarrow> e = OperandTypeError"
  "rich_compare_list op xs ys = Inl e \<Longrightarrow> e = OperandTypeError"
  by (induction op a b and op xs ys rule: rich_compare_rich_compare_list.induct)
     (auto split: option.splits if_splits)

lemma bitwise_error: "bitwise op a b = Inl e \<Longrightarrow> e = OperandTypeError"
  by (induction op a b rule: bitwise.induct) (auto split: option.splits)

lemma py_contains_error: "py_contains a b = Inl e \<Longrightarrow> e = OperandTypeError"
  by (induction a b rule: py_contains.induct) auto

lemma call_error: "call f args = Inl e \<Longrightarrow> raised_by_operator e"
  by (induction f args rule: call.induct)
     (auto split: option.splits sum.splits
           dest: rich_compare_error bitwise_error py_contains_error
           simp: map_sum_def)

lemma popn_append:
  "n \<le> length vs \<Longrightarrow> popn n (vs @ stack) = Inr (take n vs, drop n vs @ stack)"
proof (induction n arbitrary: vs)
  case 0
  then show ?case by simp
next
  case (Suc n)
  then obtain v vs' where "vs = v # vs'" by (cases vs) auto
  with Suc show ?case by simp
qed




lemma pushes_literal: "pushes m [Symbol (PValue v) a] stack 1 exact"
  by (simp add: pushes_def)

lemma pushes_column: "pushes m [Symbol (PColumn c) a] stack 1 exact"
  by (simp add: pushes_def split: option.splits)

lemma pushes_Nil: "pushes m [] stack 0 exact"
  by (simp add: pushes_def)

lemma pushes_weaken:
  "pushes m xs stack n exact \<Longrightarrow> n' \<le> n \<Longrightarrow> (exact' \<Longrightarrow> exact \<and> n = n') \<Longrightarrow>
   pushes m xs stack n' exact'"
  by (auto simp: pushes_def split: sum.splits)

lemma pushes_append:
  assumes "pushes m xs stack a e1" and "\<And>stack'. pushes m ys stack' b e2"
  shows "pushes m (xs @ ys) stack (a + b) (e1 \<and> e2)"
proof (cases "run m xs stack")
  case (Inl err)
  with assms(1) show ?thesis by (simp add: pushes_def run_append)
next
  case (Inr stack1)
  with assms(1) obtain vs where vs: "stack1 = vs @ stack" "a \<le> length vs" "e1 \<longrightarrow> length vs = a"
    by (auto simp: pushes_def)
  show ?thesis
  proof (cases "run m ys stack1")
    case (Inl err)
    with assms(2)[of stack1] Inr show ?thesis by (simp add: pushes_def run_append)
  next
    case Inr2: (Inr stack2)
    with assms(2)[of stack1] obtain ws where ws: "stack2 = ws @ stack1" "b \<le> length ws"
        "e2 \<longrightarrow> length ws = b"
      by (auto simp: pushes_def)
    have "stack2 = (ws @ vs) @ stack" using ws vs by simp
    moreover have "a + b \<le> length (ws @ vs)" using ws vs by simp
    moreover have "e1 \<and> e2 \<longrightarrow> length (ws @ vs) = a + b" using ws vs by simp
    ultimately show ?thesis
      using Inr Inr2 unfolding pushes_def run_append by (simp del: append_assoc)
  qed
qed

lemma pushes_operator:
  assumes "pushes m xs stack n exact"
  shows "pushes m (xs @ [Symbol (PCallable f) (Some n)]) stack 1 exact"
proof (cases "run m xs stack")
  case (Inl err)
  with assms show ?thesis by (simp add: pushes_def run_append)
next
  case (Inr stack1)
  with assms obtain vs where vs: "stack1 = vs @ stack" "n \<le> length vs" "exact \<longrightarrow> length vs = n"
    by (auto simp: pushes_def)
  show ?thesis
  proof (cases "call f (take n vs)")
    case (Inl err)
    then show ?thesis
      using Inr vs call_error[OF Inl]
      by (simp add: pushes_def run_append popn_append)
  next
    case Inr2: (Inr v)
    have "run m (xs @ [Symbol (PCallable f) (Some n)]) stack = Inr ((v # drop n vs) @ stack)"
      using Inr vs Inr2 by (simp add: run_append popn_append)
    moreover have "exact \<longrightarrow> length (v # drop n vs) = 1" using vs by simp
    ultimately show ?thesis
      by (simp add: pushes_def)
  qed
qed

lemma pushes_compare_None:
  "pushes m [Symbol (PValue VNone) None, Symbol (PColumn c) None, Symbol (PCallable f) (Some 2)]
     stack 1 exact"
proof -
  have "pushes m ([Symbol (PValue VNone) None] @ [Symbol (PColumn c) None]) stack (1 + 1)
          (True \<and> True)"
    by (rule pushes_append [OF pushes_literal pushes_column])
  then have "pushes m [Symbol (PValue VNone) None, Symbol (PColumn c) None] stack 2 True"
    by (simp add: numeral_2_eq_2)
  from pushes_operator [OF this, of f] show ?thesis
    by (auto elim: pushes_weaken)
qed

lemma serialize_pushes:
  "serialize e fb = Inr ser \<Longrightarrow> pushes m ser stack 1 (no_istrue_binary e)"
  "serialize_clauses es fb = Inr ser \<Longrightarrow>
     pushes m ser stack (length es) (list_all no_istrue_binary es)"
proof (induction e fb and es fb arbitrary: ser stack and ser stack
       rule: serialize_serialize_clauses.induct)
  case (1 v force_bool)
  then show ?case using pushes_literal by auto
next
  case (2 els force_bool)
  then show ?case using pushes_literal by (auto split: sum.splits)
next
  case (3 force_bool)
  then show ?case using pushes_literal by auto
next
  case (4 c force_bool)
  then show ?case
    using pushes_column [of m c None stack True] pushes_compare_None [of m c Op_ne stack True]
    by (auto simp: serialize_isnot_None split: if_splits)
next
  case (5 element op force_bool)
  then show ?case
    using pushes_operator [OF pushes_column [of m element None stack True]]
      pushes_column [of m element None stack True]
    by (auto split: option.splits)
next
  case (6 target op force_bool)
  show ?case
  proof (cases "force_bool \<and> op = Op_inv \<and> is_Column target")
    case True
    with 6(3) show ?thesis
      using pushes_compare_None [of m "the_Column target" Op_eq stack True]
      by (auto simp: serialize_is_None elim: pushes_weaken)
  next
    case False
    with 6(3) obtain ts where ts: "serialize target force_bool = Inr ts"
        "ser = ts @ [Symbol (PCallable op) (Some 1)]"
      by (auto split: sum.splits)
    from 6(2)[OF False ts(1)] have "pushes m ts stack 1 (no_istrue_binary target)" .
    from pushes_operator[OF this] ts(2) show ?thesis by simp
  qed
next
  case (7 op clauses force_bool)
  then obtain cs where cs: "serialize_clauses clauses force_bool = Inr cs"
      "ser = cs @ [Symbol (PCallable op) (Some (length clauses))]"
    by (auto split: sum.splits)
  from 7(1)[OF cs(1)]
  have "pushes m cs stack (length clauses) (list_all no_istrue_binary clauses)" .
  from pushes_operator[OF this] cs(2) show ?case by simp
next
  case (8 left right op force_bool)
  from 8(3) have nc: "\<not> is_custom_op op" by (auto split: if_splits)
  with 8(3) obtain rs ls where rl: "serialize right False = Inr rs"
      "serialize left False = Inr ls"
      "ser = rs @ ls @ [Symbol (binary_payload op) (Some 2)]"
    by (auto split: sum.splits)
  have R: "pushes m rs stack 1 (no_istrue_binary right)" using 8(1)[OF nc rl(1)] .
  have L: "\<And>stack'. pushes m ls stack' 1 (no_istrue_binary left)"
    using 8(2)[OF nc rl(1) rl(2)] .
  have RL: "pushes m (rs @ ls) stack 2 (no_istrue_binary right \<and> no_istrue_binary left)"
    using pushes_append[OF R L] by (simp add: numeral_2_eq_2)
  show ?case
  proof (cases "op = Sql_istrue")
    case True
    have "pushes m ((rs @ ls) @ [Symbol (PValue VNone) (Some 2)]) stack 3
            ((no_istrue_binary right \<and> no_istrue_binary left) \<and> True)"
      using pushes_append[OF RL pushes_literal[of m VNone "Some 2" _ True]] by simp
    then show ?thesis
      using True rl(3) by (auto simp: binary_payload_def elim: pushes_weaken)
  next
    case False
    then obtain f where f: "binary_payload op = PCallable f"
      by (cases op) (auto simp: binary_payload_def)
    from pushes_operator[OF RL, of f] show ?thesis
      using False rl(3) f by (auto elim: pushes_weaken)
  qed
next
  case (9 expr_type force_bool)
  then show ?case by simp
next
  case (10 force_bool)
  then show ?case using pushes_Nil by auto
next
  case (11 clause clauses force_bool)
  then obtain cs rest where cr: "serialize clause force_bool = Inr cs"
      "serialize_clauses clauses force_bool = Inr rest" "ser = cs @ rest"
    by (auto split: sum.splits)
  have C: "pushes m cs stack 1 (no_istrue_binary clause)" using 11(1)[OF cr(1)] .
  have R: "\<And>stack'. pushes m rest stack' (length clauses) (list_all no_istrue_binary clauses)"
    using 11(2)[OF cr(1) cr(2)] .
  from pushes_append[OF C R] cr(3) show ?case by simp
qed




lemma Expression_init_serialized:
  "Expression_init e fb = Inr self \<Longrightarrow>
   serialize (if fb then expression_after e else e) fb = Inr (serialized self)"
  by (auto simp: Expression_init_def Let_def split: sum.splits)

lemma step_missing:
  "step m s stack = Inl MissingColumnValue \<Longrightarrow> \<exists>c a. s = Symbol (PColumn c) a \<and> m c = None"
proof (induction m s stack rule: step.induct)
  case (3 column_values f arity stack)
  then show ?case
  proof (cases arity)
    case None
    with 3 show ?thesis by simp
  next
    case (Some n)
    show ?thesis
    proof (cases "popn n stack")
      case (Inl e)
      have "\<And>n stack e. popn n stack = Inl e \<Longrightarrow> e = StackUnderflow"
        subgoal for n stack e
          by (induction n stack rule: popn.induct) (auto split: sum.splits)
        done
      with Inl 3 Some show ?thesis by auto
    next
      case (Inr p)
      with 3 Some show ?thesis
        by (cases p) (auto split: sum.splits dest: call_error)
    qed
  qed
qed (auto split: option.splits)

lemma run_missing:
  "run m symbols stack = Inl MissingColumnValue \<Longrightarrow>
   \<exists>c a. Symbol (PColumn c) a \<in> set symbols \<and> m c = None"
proof (induction symbols arbitrary: stack)
  case Nil
  then show ?case by simp
next
  case (Cons s symbols)
  show ?case
  proof (cases "step m s stack")
    case (Inl e)
    with Cons.prems have "step m s stack = Inl MissingColumnValue" by simp
    from step_missing[OF this] show ?thesis by auto
  next
    case (Inr stack')
    with Cons.prems have "run m symbols stack' = Inl MissingColumnValue" by simp
    from Cons.IH[OF this] show ?thesis by auto
  qed
qed

lemma run_success_columns:
  "run m symbols stack = Inr stack' \<Longrightarrow> Symbol (PColumn c) a \<in> set symbols \<Longrightarrow> m c \<noteq> None"
proof (induction symbols arbitrary: stack)
  case Nil
  then show ?case by simp
next
  case (Cons s symbols)
  from Cons.prems(1) obtain stack1 where s1: "step m s stack = Inr stack1"
      "run m symbols stack1 = Inr stack'"
    by (auto split: sum.splits)
  from Cons.prems(2) consider "s = Symbol (PColumn c) a" | "Symbol (PColumn c) a \<in> set symbols"
    by auto
  then show ?case
  proof cases
    case 1
    with s1(1) show ?thesis by (auto split: option.splits)
  next
    case 2
    from Cons.IH[OF s1(2) 2] show ?thesis .
  qed
qed

lemma run_first_missing:
  "run m before stack = Inr stack' \<Longrightarrow> m c = None \<Longrightarrow>
   run m (before @ Symbol (PColumn c) a # rest) stack = Inl MissingColumnValue"
  by (simp add: run_append)

lemma columns_member:
  "x \<in> columns self \<longleftrightarrow>
     (\<exists>c arity. x = PColumn c \<and> Symbol (PColumn c) arity \<in> set (serialized self))"
proof
  assume "x \<in> columns self"
  then obtain s where s: "s \<in> set (serialized self)" "symbol_type s = T_column"
      "x = symbol_value s"
    by (auto simp: columns_def)
  obtain p a where sa: "s = Symbol p a" by (cases s)
  with s(2) obtain c where "p = PColumn c" by (cases p) (auto simp: symbol_type_def)
  with s sa show "\<exists>c arity. x = PColumn c \<and> Symbol (PColumn c) arity \<in> set (serialized self)"
    by auto
next
  assume "\<exists>c arity. x = PColumn c \<and> Symbol (PColumn c) arity \<in> set (serialized self)"
  then obtain c a where "x = PColumn c" "Symbol (PColumn c) a \<in> set (serialized self)"
    by blast
  then show "x \<in> columns self"
    by (force simp: columns_def symbol_type_def)
qed

lemma columns_iff:
  "PColumn c \<in> columns self \<longleftrightarrow> (\<exists>a. Symbol (PColumn c) a \<in> set (serialized self))"
  by (simp add: columns_member)

section \<open>Boolean coercion of a bare column\<close>

text \<open>
  C1. For a column \<open>c\<close> whose type is not Boolean, the bare column compiled with
  \<open>force_bool\<close> evaluates to \<open>False\<close> where \<open>c\<close> is \<open>None\<close> and to \<open>True\<close> where \<open>c\<close> is any
  other value; the negation \<open>~c\<close> compiled with \<open>force_bool\<close> evaluates to \<open>True\<close>
  exactly where \<open>c\<close> is \<open>None\<close>.
\<close>

theorem force_bool_null_semantics:
  assumes "column_type c \<noteq> Boolean"
  shows "compile_evaluate (Column c) True (m(c \<mapsto> VNone)) = Inr (VBool False)
    \<and> (\<forall>v. v \<noteq> VNone \<longrightarrow> compile_evaluate (Column c) True (m(c \<mapsto> v)) = Inr (VBool True))
    \<and> (\<forall>v. compile_evaluate (UnaryExpression (Column c) Op_inv) True (m(c \<mapsto> v))
            = Inr (VBool (v = VNone)))"
  using assms
  by (simp add: compile_evaluate_def Expression_init_def evaluate_def
        serialize_isnot_None serialize_is_None)

theorem force_bool_null_semantics_witness:
  "column_type \<lparr>column_name = ''age'', column_type = Integer\<rparr> \<noteq> Boolean
   \<and> compile_evaluate (Column \<lparr>column_name = ''age'', column_type = Integer\<rparr>) True
       [\<lparr>column_name = ''age'', column_type = Integer\<rparr> \<mapsto> VNone] = Inr (VBool False)
   \<and> compile_evaluate (Column \<lparr>column_name = ''age'', column_type = Integer\<rparr>) True
       [\<lparr>column_name = ''age'', column_type = Integer\<rparr> \<mapsto> VInt 5] = Inr (VBool True)
   \<and> compile_evaluate
       (UnaryExpression (Column \<lparr>column_name = ''age'', column_type = Integer\<rparr>) Op_inv) True
       [\<lparr>column_name = ''age'', column_type = Integer\<rparr> \<mapsto> VInt 5] = Inr (VBool False)
   \<and> compile_evaluate
       (UnaryExpression (Column \<lparr>column_name = ''age'', column_type = Integer\<rparr>) Op_inv) True
       [\<lparr>column_name = ''age'', column_type = Integer\<rparr> \<mapsto> VNone] = Inr (VBool True)"
  using force_bool_null_semantics
    [of "\<lparr>column_name = ''age'', column_type = Integer\<rparr>" Map.empty]
  by simp

section \<open>Operand order of a binary node\<close>



section \<open>Negation in the coercion rewrite\<close>




section \<open>The boolean wrapper\<close>

text \<open>
  C6. An \<open>AsBoolean\<close> node serializes to the symbol of its element followed, for
  \<open>isfalse\<close>, by one operator symbol of arity 1 holding \<open>operator.not_\<close>, and for
  \<open>istrue\<close> by nothing.
\<close>

theorem asboolean_istrue_isfalse:
  "Expression_init (AsBoolean element Sql_isfalse) force_bool =
     Inr \<lparr>sql = AsBoolean element Sql_isfalse,
          serialized = [Symbol (PColumn element) None, Symbol (PCallable Op_not) (Some 1)]\<rparr>
   \<and> Expression_init (AsBoolean element Sql_istrue) force_bool =
     Inr \<lparr>sql = AsBoolean element Sql_istrue,
          serialized = [Symbol (PColumn element) None]\<rparr>"
  by (simp add: Expression_init_def)

section \<open>Custom operators\<close>

text \<open>
  C7. A binary node whose operator is a custom operator does not compile: the
  serializer and the constructor fail with the unsupported-operator error, whatever
  the operands and the flag, and no symbol sequence is returned.
\<close>

theorem custom_operator_rejected:
  "serialize (BinaryExpression left right (Custom_op name)) force_bool = Inl UnsupportedOperator
   \<and> Expression_init (BinaryExpression left right (Custom_op name)) force_bool
       = Inl UnsupportedOperator"
  by (simp add: Expression_init_def)

section \<open>Referenced columns\<close>

text \<open>
  C9. The \<open>columns\<close> property is exactly the set of the columns that are the value of
  some symbol of the serialized sequence.
\<close>

theorem columns_exact:
  "x \<in> columns self \<longleftrightarrow>
     (\<exists>c arity. x = PColumn c \<and> Symbol (PColumn c) arity \<in> set (serialized self))"
  by (rule columns_member)

section \<open>The flag inside a binary node\<close>

text \<open>
  C10. A binary node compiles to the same result with \<open>force_bool\<close> on and off; a column
  compared with a bound value serializes to a plain column symbol also with the flag on.
\<close>

theorem binary_ignores_force_bool:
  "Expression_init (BinaryExpression left right op) True =
     Expression_init (BinaryExpression left right op) False
   \<and> serialize (BinaryExpression (Column c) (BindParameter v) op) True =
       (if is_custom_op op then Inl UnsupportedOperator
        else Inr [Symbol (PValue v) None, Symbol (PColumn c) None,
                  Symbol (binary_payload op) (Some 2)])"
  by (simp add: Expression_init_def)

section \<open>Stack discipline of the evaluator\<close>




text \<open>
  A binary node with the operator \<open>istrue\<close>: \<open>OPERATOR_MAP.get\<close> finds the entry \<open>None\<close>,
  the third symbol is a literal, and three values are left on the stack.
\<close>

lemma binary_istrue_leaves_three_values:
  "serialize (BinaryExpression (BindParameter (VInt 1)) (BindParameter (VInt 2)) Sql_istrue)
     False =
     Inr [Symbol (PValue (VInt 2)) None, Symbol (PValue (VInt 1)) None,
          Symbol (PValue VNone) (Some 2)]
   \<and> run Map.empty [Symbol (PValue (VInt 2)) None, Symbol (PValue (VInt 1)) None,
          Symbol (PValue VNone) (Some 2)] [] = Inr [VNone, VInt 1, VInt 2]"
  by (simp add: binary_payload_def)

section \<open>Missing column values\<close>

text \<open>
  C8, as the source has it. For a compiled expression, when a referenced column is
  absent from the mapping the evaluation returns no value: it fails, with the
  missing-column error or with the exception of an operator function called earlier;
  it fails with the missing-column error when the symbols before a column symbol whose
  column is absent have all been processed; and when every referenced column is
  present it never fails with the missing-column error.
\<close>

theorem missing_column_value:
  assumes "Expression_init expression force_bool = Inr self"
  shows "(PColumn c \<in> columns self \<and> column_values c = None \<longrightarrow>
           (\<exists>err. evaluate self column_values = Inl err \<and>
                  (err = MissingColumnValue \<or> raised_by_operator err)))
    \<and> (serialized self = before @ Symbol (PColumn c) arity # rest \<and> column_values c = None
         \<and> run column_values before [] = Inr stack \<longrightarrow>
           evaluate self column_values = Inl MissingColumnValue)
    \<and> (columns self \<subseteq> PColumn ` dom column_values \<longrightarrow>
           evaluate self column_values \<noteq> Inl MissingColumnValue)"
proof (intro conjI impI)
  assume a: "PColumn c \<in> columns self \<and> column_values c = None"
  then obtain ar where mem: "Symbol (PColumn c) ar \<in> set (serialized self)"
    by (auto simp: columns_iff)
  let ?e = "if force_bool then expression_after expression else expression"
  from Expression_init_serialized[OF assms]
  have "pushes column_values (serialized self) [] 1 (no_istrue_binary ?e)"
    by (rule serialize_pushes(1))
  moreover have "\<And>st. run column_values (serialized self) [] \<noteq> Inr st"
  proof
    fix st
    assume "run column_values (serialized self) [] = Inr st"
    from run_success_columns[OF this mem] a show False by simp
  qed
  ultimately show "\<exists>err. evaluate self column_values = Inl err \<and>
                  (err = MissingColumnValue \<or> raised_by_operator err)"
    by (auto simp: pushes_def evaluate_def split: sum.splits)
next
  assume "serialized self = before @ Symbol (PColumn c) arity # rest \<and> column_values c = None
         \<and> run column_values before [] = Inr stack"
  then show "evaluate self column_values = Inl MissingColumnValue"
    by (simp add: evaluate_def run_first_missing)
next
  assume sub: "columns self \<subseteq> PColumn ` dom column_values"
  show "evaluate self column_values \<noteq> Inl MissingColumnValue"
  proof
    assume "evaluate self column_values = Inl MissingColumnValue"
    then have "run column_values (serialized self) [] = Inl MissingColumnValue"
      by (auto simp: evaluate_def split: sum.splits list.splits elim: pop.elims)
    from run_missing[OF this] obtain c a where
      "Symbol (PColumn c) a \<in> set (serialized self)" "column_values c = None" by blast
    then have "PColumn c \<in> columns self" "c \<notin> dom column_values"
      by (auto simp: columns_iff)
    with sub show False by auto
  qed
qed

theorem missing_column_value_witness:
  "Expression_init (Column \<lparr>column_name = ''age'', column_type = Integer\<rparr>) False =
     Inr \<lparr>sql = Column \<lparr>column_name = ''age'', column_type = Integer\<rparr>,
          serialized = [Symbol (PColumn \<lparr>column_name = ''age'', column_type = Integer\<rparr>) None]\<rparr>
   \<and> evaluate \<lparr>sql = Column \<lparr>column_name = ''age'', column_type = Integer\<rparr>,
          serialized = [Symbol (PColumn \<lparr>column_name = ''age'', column_type = Integer\<rparr>) None]\<rparr>
        Map.empty = Inl MissingColumnValue
   \<and> evaluate \<lparr>sql = Column \<lparr>column_name = ''age'', column_type = Integer\<rparr>,
          serialized = [Symbol (PColumn \<lparr>column_name = ''age'', column_type = Integer\<rparr>) None]\<rparr>
        [\<lparr>column_name = ''age'', column_type = Integer\<rparr> \<mapsto> VInt 5] = Inr (VInt 5)"
  using missing_column_value [of "Column \<lparr>column_name = ''age'', column_type = Integer\<rparr>" False
      "\<lparr>sql = Column \<lparr>column_name = ''age'', column_type = Integer\<rparr>,
          serialized = [Symbol (PColumn \<lparr>column_name = ''age'', column_type = Integer\<rparr>) None]\<rparr>"
      "\<lparr>column_name = ''age'', column_type = Integer\<rparr>" Map.empty "[]" None "[]" "[]"]
  by (simp add: Expression_init_def columns_def symbol_type_def evaluate_def)

text \<open>
  A referenced column is absent and the error is not the missing-column error: in
  \<open>(1 < 'a') AND active\<close> the comparison raises before the column is looked up.
\<close>

theorem missing_column_other_error_counterexample:
  "Expression_init
     (BooleanClauseList Op_and
        [BinaryExpression (BindParameter (VInt 1)) (BindParameter (VStr ''a'')) Op_lt,
         AsBoolean \<lparr>column_name = ''active'', column_type = Boolean\<rparr> Sql_istrue]) False =
     Inr \<lparr>sql = BooleanClauseList Op_and
        [BinaryExpression (BindParameter (VInt 1)) (BindParameter (VStr ''a'')) Op_lt,
         AsBoolean \<lparr>column_name = ''active'', column_type = Boolean\<rparr> Sql_istrue],
        serialized = [Symbol (PValue (VStr ''a'')) None, Symbol (PValue (VInt 1)) None,
           Symbol (PCallable Op_lt) (Some 2),
           Symbol (PColumn \<lparr>column_name = ''active'', column_type = Boolean\<rparr>) None,
           Symbol (PCallable Op_and) (Some 2)]\<rparr>
   \<and> PColumn \<lparr>column_name = ''active'', column_type = Boolean\<rparr> \<in>
       columns \<lparr>sql = BooleanClauseList Op_and
        [BinaryExpression (BindParameter (VInt 1)) (BindParameter (VStr ''a'')) Op_lt,
         AsBoolean \<lparr>column_name = ''active'', column_type = Boolean\<rparr> Sql_istrue],
        serialized = [Symbol (PValue (VStr ''a'')) None, Symbol (PValue (VInt 1)) None,
           Symbol (PCallable Op_lt) (Some 2),
           Symbol (PColumn \<lparr>column_name = ''active'', column_type = Boolean\<rparr>) None,
           Symbol (PCallable Op_and) (Some 2)]\<rparr>
   \<and> Map.empty \<lparr>column_name = ''active'', column_type = Boolean\<rparr> = (None :: val option)
   \<and> evaluate \<lparr>sql = BooleanClauseList Op_and
        [BinaryExpression (BindParameter (VInt 1)) (BindParameter (VStr ''a'')) Op_lt,
         AsBoolean \<lparr>column_name = ''active'', column_type = Boolean\<rparr> Sql_istrue],
        serialized = [Symbol (PValue (VStr ''a'')) None, Symbol (PValue (VInt 1)) None,
           Symbol (PCallable Op_lt) (Some 2),
           Symbol (PColumn \<lparr>column_name = ''active'', column_type = Boolean\<rparr>) None,
           Symbol (PCallable Op_and) (Some 2)]\<rparr> Map.empty = Inl OperandTypeError
   \<and> Inl OperandTypeError \<noteq> (Inl MissingColumnValue :: error + val)"
  by (simp add: Expression_init_def binary_payload_def columns_def symbol_type_def evaluate_def)

section \<open>What compilation does to the caller's tree\<close>

lemma lookup_append: "lookup h r = Some obj \<Longrightarrow> lookup (h @ new) r = Some obj"
  by (auto simp: lookup_def nth_append split: if_splits)

lemma tree_of_append:
  "tree_of n h r = Some t \<Longrightarrow> tree_of n (h @ new) r = Some t"
  "trees_of n h rs = Some ts \<Longrightarrow> trees_of n (h @ new) rs = Some ts"
proof (induction n h r and n h rs arbitrary: t and ts rule: tree_of_trees_of.induct)
  case (1 h r)
  then show ?case by simp
next
  case (2 n h r)
  from "2.prems" obtain obj where obj: "lookup h r = Some obj" by (auto split: option.splits)
  then have obj': "lookup (h @ new) r = Some obj" by (rule lookup_append)
  show ?case
  proof (cases obj)
    case (OAsBoolean el op)
    with "2.prems" obj obtain c where "lookup h el = Some (OColumn c)"
      by (auto split: option.splits object.splits)
    with "2.prems" obj obj' OAsBoolean lookup_append[OF this, of new] show ?thesis by simp
  qed (use 2 obj obj' in \<open>auto split: option.splits\<close>)
next
  case (3 n h)
  then show ?case by simp
next
  case (4 n h r rs)
  then show ?case by (auto split: option.splits)
qed

lemma compare_None_h_eq:
  "compare_None_h op h col = (Suc (length h), h @ [ONull, OBinaryExpression col (length h) op])"
  by (simp add: compare_None_h_def allocate_def)


lemma tree_of_more_fuel_both:
  "(\<forall>r t. tree_of n h r = Some t \<longrightarrow> tree_of (Suc n) h r = Some t) \<and>
   (\<forall>rs ts. trees_of n h rs = Some ts \<longrightarrow> trees_of (Suc n) h rs = Some ts)"
proof (induction n)
  case 0
  have "trees_of 0 h rs = Some ts \<Longrightarrow> trees_of (Suc 0) h rs = Some ts" for rs ts
    by (cases rs) auto
  then show ?case by simp
next
  case (Suc n)
  then have T: "\<And>r t. tree_of n h r = Some t \<Longrightarrow> tree_of (Suc n) h r = Some t"
    and Ts: "\<And>rs ts. trees_of n h rs = Some ts \<Longrightarrow> trees_of (Suc n) h rs = Some ts"
    by blast+
  have A: "tree_of (Suc (Suc n)) h r = Some t" if "tree_of (Suc n) h r = Some t" for r t
    unfolding tree_of.simps(2) [of "Suc n"]
    using that [unfolded tree_of.simps(2)]
    by (auto simp del: tree_of.simps simp: T Ts split: option.splits object.splits)
  have B: "trees_of (Suc n) h rs = Some ts \<Longrightarrow> trees_of (Suc (Suc n)) h rs = Some ts"
    for rs ts
    by (induction rs arbitrary: ts) (auto simp del: tree_of.simps simp: A split: option.splits)
  from A B show ?case by blast
qed

lemma tree_of_more_fuel:
  "tree_of n h r = Some t \<Longrightarrow> tree_of (Suc n) h r = Some t"
  using tree_of_more_fuel_both by blast

lemma tree_of_Column:
  "tree_of n h r = Some t \<Longrightarrow> is_Column t \<longleftrightarrow> is_OColumn (lookup h r)"
  by (cases n; cases "lookup h r")
     (auto split: object.splits option.splits)

lemma tree_of_compare_None:
  assumes "lookup h col = Some (OColumn c)"
  shows "tree_of (Suc (Suc n)) (h @ [ONull, OBinaryExpression col (length h) op])
           (Suc (length h)) = Some (BinaryExpression (Column c) Null op)"
proof -
  let ?h = "h @ [ONull, OBinaryExpression col (length h) op]"
  have "lookup ?h col = Some (OColumn c)"
    using assms by (rule lookup_append)
  then have "tree_of (Suc n) ?h col = Some (Column c)" by simp
  moreover have "lookup ?h (Suc (length h)) = Some (OBinaryExpression col (length h) op)"
    by (simp add: lookup_def nth_append)
  moreover have "lookup ?h (length h) = Some ONull"
    by (simp add: lookup_def nth_append)
  ultimately show ?thesis by simp
qed

lemma rephrase_h_not_clause_list:
  assumes "tree_of fuel h expression = Some tree" and "\<not> is_BooleanClauseList tree"
  shows "\<exists>sql_obj new. rephrase_as_boolean_h fuel h expression = Some (sql_obj, h @ new)
           \<and> tree_of (Suc fuel) (h @ new) sql_obj = Some (rephrase_as_boolean tree)"
proof -
  from assms(1) obtain n where n: "fuel = Suc n" by (cases fuel) auto
  from assms(1) n obtain obj where obj: "lookup h expression = Some obj"
    by (auto split: option.splits)
  have same: "rephrase_as_boolean_h fuel h expression = Some (expression, h) \<Longrightarrow>
      rephrase_as_boolean tree = tree \<Longrightarrow> ?thesis"
    using tree_of_more_fuel[OF assms(1)] by (intro exI[of _ expression] exI[of _ "[]"]) simp
  show ?thesis
  proof (cases obj)
    case (OColumn c)
    with assms(1) n obj have t: "tree = Column c" by simp
    show ?thesis
    proof (cases "column_type c = Boolean")
      case True
      with t n obj OColumn show ?thesis by (intro same) auto
    next
      case False
      from obj OColumn have tc: "lookup h expression = Some (OColumn c)" by simp
      from tree_of_compare_None[OF tc, of n Sql_isnot] False t n obj OColumn
      show ?thesis
        by (intro exI[of _ "Suc (length h)"]
              exI[of _ "[ONull, OBinaryExpression expression (length h) Sql_isnot]"])
           (simp add: compare_None_h_eq isnot_None_def del: tree_of.simps)
    qed
  next
    case (OUnaryExpression el op)
    with assms(1) n obj obtain t' where t': "tree_of n h el = Some t'"
        "tree = UnaryExpression t' op"
      by auto
    show ?thesis
    proof (cases "op = Op_inv \<and> is_OColumn (lookup h el)")
      case True
      then obtain c where lc: "lookup h el = Some (OColumn c)"
        by (cases "lookup h el" rule: is_OColumn.cases) auto
      with t'(1) have c: "t' = Column c" by (cases n) auto
      from tree_of_compare_None[OF lc, of n Sql_is] True t' c n obj OUnaryExpression
      show ?thesis
        by (intro exI[of _ "Suc (length h)"]
              exI[of _ "[ONull, OBinaryExpression el (length h) Sql_is]"])
           (simp add: compare_None_h_eq is_None_def del: tree_of.simps)
    next
      case False
      with tree_of_Column[OF t'(1)] t' n obj OUnaryExpression show ?thesis
        by (intro same) auto
    qed
  next
    case (OAsBoolean el op)
    with assms(1) n obj obtain c where c: "lookup h el = Some (OColumn c)"
        "tree = AsBoolean c op"
      by (auto split: option.splits object.splits)
    show ?thesis
    proof (cases "op = Op_inv")
      case True
      from tree_of_compare_None[OF c(1), of n Sql_is] True c n obj OAsBoolean
      show ?thesis
        by (intro exI[of _ "Suc (length h)"]
              exI[of _ "[ONull, OBinaryExpression el (length h) Sql_is]"])
           (simp add: compare_None_h_eq is_None_def del: tree_of.simps)
    next
      case False
      with c n obj OAsBoolean show ?thesis by (intro same) auto
    qed
  next
    case (OBooleanClauseList op cs)
    with assms n obj show ?thesis by (auto split: option.splits)
  next
    case (OBindParameter v)
    with assms(1) n obj have "tree = BindParameter v" by simp
    with n obj OBindParameter show ?thesis by (intro same) auto
  next
    case (OGrouping els)
    with assms(1) n obj obtain ts where "tree = Grouping ts" by auto
    with n obj OGrouping show ?thesis by (intro same) auto
  next
    case ONull
    with assms(1) n obj have "tree = Null" by simp
    with n obj ONull show ?thesis by (intro same) auto
  next
    case (OBinaryExpression l r op)
    with assms(1) n obj obtain lt rt where "tree = BinaryExpression lt rt op"
      by (auto split: option.splits)
    with n obj OBinaryExpression show ?thesis by (intro same) auto
  next
    case (OUnsupported name)
    with assms(1) n obj have "tree = Unsupported name" by simp
    with n obj OUnsupported show ?thesis by (intro same) auto
  qed
qed

lemma rewrites_only_refl: "rewrites_only h h M"
  by (simp add: rewrites_only_def)

lemma rewrites_only_append: "rewrites_only h (h @ new) M"
  by (simp add: rewrites_only_def nth_append)

lemma rewrites_only_mono: "rewrites_only h h' M \<Longrightarrow> M \<subseteq> M' \<Longrightarrow> rewrites_only h h' M'"
  by (auto simp: rewrites_only_def)

lemma rewrites_only_trans:
  "rewrites_only h h1 A \<Longrightarrow> rewrites_only h1 h2 B \<Longrightarrow> rewrites_only h h2 (A \<union> B)"
  unfolding rewrites_only_def
  by (metis UnCI le_trans less_le_trans)

lemma rewrites_only_update:
  "lookup h r = Some (OBooleanClauseList op cs) \<Longrightarrow> rewrites_only h (h[r := obj]) {r}"
  by (auto simp: rewrites_only_def lookup_def nth_list_update split: if_splits)

lemma lookup_Some_less: "lookup h r = Some obj \<Longrightarrow> r < length h"
  by (auto simp: lookup_def split: if_splits)

lemma clause_refs_valid:
  "x \<in> set (clause_refs n h r) \<Longrightarrow> x < length h"
  "x \<in> set (clause_refs_list n h rs) \<Longrightarrow> x < length h"
proof (induction n h r and n h rs rule: clause_refs_clause_refs_list.induct)
  case (2 n h r)
  show ?case
  proof (cases "lookup h r")
    case None
    with "2.prems" show ?thesis by simp
  next
    case (Some obj)
    with 2 lookup_Some_less[OF Some] show ?thesis by (cases obj) auto
  qed
qed auto

lemma lookup_rewrites_only:
  assumes "lookup h r = Some obj" and "rewrites_only h h' M"
    and "is_clause_list obj \<Longrightarrow> r \<notin> M"
  shows "lookup h' r = Some obj"
proof -
  from assms(1) have r: "r < length h" "h ! r = obj"
    by (auto simp: lookup_def split: if_splits)
  with assms(2) have "h' ! r = h ! r \<or> (r \<in> M \<and> is_clause_list (h ! r))" "r < length h'"
    by (auto simp: rewrites_only_def)
  with r assms(3) show ?thesis by (auto simp: lookup_def)
qed

lemma frame_tree_of:
  "tree_of n h r = Some t \<Longrightarrow> rewrites_only h h' M \<Longrightarrow> set (clause_refs n h r) \<inter> M = {} \<Longrightarrow>
     tree_of n h' r = Some t \<and> clause_refs n h' r = clause_refs n h r"
  "trees_of n h rs = Some ts \<Longrightarrow> rewrites_only h h' M \<Longrightarrow>
     set (clause_refs_list n h rs) \<inter> M = {} \<Longrightarrow>
     trees_of n h' rs = Some ts \<and> clause_refs_list n h' rs = clause_refs_list n h rs"
proof (induction n h r and n h rs arbitrary: t and ts rule: tree_of_trees_of.induct)
  case (1 h r)
  then show ?case by simp
next
  case (2 n h r)
  from "2.prems"(1) obtain obj where obj: "lookup h r = Some obj"
    by (auto split: option.splits)
  have "is_clause_list obj \<Longrightarrow> r \<notin> M"
    using "2.prems"(3) obj by (cases obj) auto
  from lookup_rewrites_only[OF obj "2.prems"(2) this] have obj': "lookup h' r = Some obj" .
  show ?case
  proof (cases obj)
    case (OBindParameter v)
    with "2.prems" obj obj' show ?thesis by simp
  next
    case (OGrouping els)
    with "2.prems" obj obtain ts where ts: "trees_of n h els = Some ts" "t = Grouping ts"
      by auto
    from "2.prems"(3) obj OGrouping have "set (clause_refs_list n h els) \<inter> M = {}" by simp
    from "2.IH"(1)[OF obj OGrouping ts(1) "2.prems"(2) this] ts obj obj' OGrouping
    show ?thesis by simp
  next
    case ONull
    with "2.prems" obj obj' show ?thesis by simp
  next
    case (OColumn c)
    with "2.prems" obj obj' show ?thesis by simp
  next
    case (OAsBoolean el op)
    with "2.prems"(1) obj obtain c where c: "lookup h el = Some (OColumn c)"
      by (auto split: option.splits object.splits)
    from lookup_rewrites_only[OF c "2.prems"(2)] have "lookup h' el = Some (OColumn c)" by simp
    with "2.prems" obj obj' OAsBoolean c show ?thesis by simp
  next
    case (OUnaryExpression el op)
    with "2.prems" obj obtain t' where t': "tree_of n h el = Some t'" "t = UnaryExpression t' op"
      by auto
    from "2.prems"(3) obj OUnaryExpression have "set (clause_refs n h el) \<inter> M = {}" by simp
    from "2.IH"(2)[OF obj OUnaryExpression t'(1) "2.prems"(2) this] t' obj obj' OUnaryExpression
    show ?thesis by simp
  next
    case (OBooleanClauseList op cs)
    with "2.prems" obj obtain ts where ts: "trees_of n h cs = Some ts"
        "t = BooleanClauseList op ts"
      by auto
    from "2.prems"(3) obj OBooleanClauseList have "set (clause_refs_list n h cs) \<inter> M = {}"
      by auto
    from "2.IH"(3)[OF obj OBooleanClauseList ts(1) "2.prems"(2) this] ts obj obj'
      OBooleanClauseList
    show ?thesis by simp
  next
    case (OBinaryExpression l r' op)
    with "2.prems" obj obtain tl tr where tlr: "tree_of n h l = Some tl"
        "tree_of n h r' = Some tr" "t = BinaryExpression tl tr op"
      by (auto split: option.splits)
    from "2.prems"(3) obj OBinaryExpression have d: "set (clause_refs n h l) \<inter> M = {}"
        "set (clause_refs n h r') \<inter> M = {}"
      by auto
    from "2.IH"(4)[OF obj OBinaryExpression tlr(1) "2.prems"(2) d(1)]
      "2.IH"(5)[OF obj OBinaryExpression tlr(1) tlr(2) "2.prems"(2) d(2)]
      tlr obj obj' OBinaryExpression
    show ?thesis by simp
  next
    case (OUnsupported name)
    with "2.prems" obj obj' show ?thesis by simp
  qed
next
  case (3 n h)
  then show ?case by simp
next
  case (4 n h r rs)
  from "4.prems"(1) obtain t' ts' where t': "tree_of n h r = Some t'"
      "trees_of n h rs = Some ts'" "ts = t' # ts'"
    by (auto split: option.splits)
  from "4.prems"(3) have d: "set (clause_refs n h r) \<inter> M = {}"
      "set (clause_refs_list n h rs) \<inter> M = {}"
    by auto
  from "4.IH"(1)[OF t'(1) "4.prems"(2) d(1)] "4.IH"(2)[OF t'(1) t'(2) "4.prems"(2) d(2)] t'
  show ?case by simp
qed

lemma clause_refs_more_fuel:
  "tree_of n h r = Some t \<Longrightarrow> clause_refs (Suc n) h r = clause_refs n h r"
  "trees_of n h rs = Some ts \<Longrightarrow> clause_refs_list (Suc n) h rs = clause_refs_list n h rs"
proof (induction n h r and n h rs arbitrary: t and ts rule: tree_of_trees_of.induct)
  case (1 h r)
  then show ?case by simp
next
  case (2 n h r)
  from "2.prems"(1) obtain obj where obj: "lookup h r = Some obj"
    by (auto split: option.splits)
  show ?case
  proof (cases obj)
    case (OGrouping els)
    with "2.prems" obj obtain ts where ts: "trees_of n h els = Some ts" by auto
    from "2.IH"(1)[OF obj OGrouping ts] obj OGrouping
    show ?thesis by (simp del: clause_refs.simps(2) add: clause_refs.simps(2)[of "Suc n"] clause_refs.simps(2)[of n])
  next
    case (OUnaryExpression el op)
    with "2.prems" obj obtain t' where t': "tree_of n h el = Some t'" by auto
    from "2.IH"(2)[OF obj OUnaryExpression t'] obj OUnaryExpression
    show ?thesis by (simp del: clause_refs.simps(2) add: clause_refs.simps(2)[of "Suc n"] clause_refs.simps(2)[of n])
  next
    case (OBooleanClauseList op cs)
    with "2.prems" obj obtain ts where ts: "trees_of n h cs = Some ts" by auto
    from "2.IH"(3)[OF obj OBooleanClauseList ts] obj OBooleanClauseList
    show ?thesis by (simp del: clause_refs.simps(2) add: clause_refs.simps(2)[of "Suc n"] clause_refs.simps(2)[of n])
  next
    case (OBinaryExpression l r' op)
    with "2.prems" obj obtain tl tr where tlr: "tree_of n h l = Some tl"
        "tree_of n h r' = Some tr"
      by (auto split: option.splits)
    from "2.IH"(4)[OF obj OBinaryExpression tlr(1)]
      "2.IH"(5)[OF obj OBinaryExpression tlr(1) tlr(2)] obj OBinaryExpression
    show ?thesis by (simp del: clause_refs.simps(2) add: clause_refs.simps(2)[of "Suc n"] clause_refs.simps(2)[of n])
  qed (use obj in \<open>simp_all\<close>)
next
  case (3 n h)
  then show ?case by simp
next
  case (4 n h r rs)
  from "4.prems"(1) obtain t' ts' where t': "tree_of n h r = Some t'"
      "trees_of n h rs = Some ts'"
    by (auto split: option.splits)
  from "4.IH"(1)[OF t'(1)] "4.IH"(2)[OF t'(1) t'(2)]
  show ?case by (simp del: clause_refs.simps(2))
qed

lemma rephrase_h_more_fuel_both:
  "(\<forall>h r x. rephrase_as_boolean_h n h r = Some x \<longrightarrow> rephrase_as_boolean_h (Suc n) h r = Some x) \<and>
   (\<forall>h rs x. rephrase_clauses_h n h rs = Some x \<longrightarrow> rephrase_clauses_h (Suc n) h rs = Some x)"
proof (induction n)
  case 0
  have "rephrase_clauses_h 0 h rs = Some x \<Longrightarrow> rephrase_clauses_h (Suc 0) h rs = Some x"
    for h rs x
    by (cases rs) auto
  then show ?case by simp
next
  case (Suc n)
  then have Cs: "\<And>h rs x. rephrase_clauses_h n h rs = Some x \<Longrightarrow>
      rephrase_clauses_h (Suc n) h rs = Some x"
    by blast
  have A: "rephrase_as_boolean_h (Suc (Suc n)) h r = Some x"
    if "rephrase_as_boolean_h (Suc n) h r = Some x" for h r x
    unfolding rephrase_as_boolean_h.simps(2) [of "Suc n"]
    using that [unfolded rephrase_as_boolean_h.simps(2)]
    by (auto simp del: rephrase_as_boolean_h.simps simp: Cs split: option.splits object.splits)
  have B: "rephrase_clauses_h (Suc n) h rs = Some x \<Longrightarrow>
      rephrase_clauses_h (Suc (Suc n)) h rs = Some x" for h rs x
    by (induction rs arbitrary: h x)
       (auto simp del: rephrase_as_boolean_h.simps simp: A split: option.splits)
  from A B show ?case by blast
qed

lemma rephrase_h_more_fuel:
  "rephrase_as_boolean_h n h r = Some x \<Longrightarrow> rephrase_as_boolean_h (Suc n) h r = Some x"
  using rephrase_h_more_fuel_both by blast

lemma clause_refs_compare_None:
  assumes "lookup h col = Some (OColumn c)"
  shows "clause_refs (Suc (Suc n)) (h @ [ONull, OBinaryExpression col (length h) op])
           (Suc (length h)) = []"
proof -
  let ?h = "h @ [ONull, OBinaryExpression col (length h) op]"
  have "lookup ?h col = Some (OColumn c)"
    using assms by (rule lookup_append)
  then have "clause_refs (Suc n) ?h col = []" by simp
  moreover have "lookup ?h (Suc (length h)) = Some (OBinaryExpression col (length h) op)"
    by (simp add: lookup_def nth_append)
  moreover have "lookup ?h (length h) = Some ONull"
    by (simp add: lookup_def nth_append)
  ultimately show ?thesis by simp
qed

lemma clause_refs_of_column:
  "lookup h col = Some (OColumn c) \<Longrightarrow> clause_refs n h col = []"
  by (cases n) auto

lemma rephrase_h_not_clause_list_refs:
  assumes "tree_of fuel h expression = Some tree" and "\<not> is_BooleanClauseList tree"
    and "rephrase_as_boolean_h fuel h expression = Some (sql_obj, h')"
  shows "clause_refs (Suc fuel) h' sql_obj = clause_refs fuel h expression"
proof -
  from assms(1) obtain n where n: "fuel = Suc n" by (cases fuel) auto
  from assms(1) n obtain obj where obj: "lookup h expression = Some obj"
    by (auto split: option.splits)
  have same: "sql_obj = expression \<Longrightarrow> h' = h \<Longrightarrow> ?thesis"
    using clause_refs_more_fuel(1)[OF assms(1)] by simp
  have new: "lookup h col = Some (OColumn c) \<Longrightarrow>
      (sql_obj, h') = compare_None_h op h col \<Longrightarrow> clause_refs fuel h expression = [] \<Longrightarrow>
      ?thesis" for col c op
    using clause_refs_compare_None[of h col c n op] n
    by (simp add: compare_None_h_eq del: clause_refs.simps)
  show ?thesis
  proof (cases obj)
    case (OColumn c)
    show ?thesis
    proof (cases "column_type c = Boolean")
      case True
      with assms(3) n obj OColumn show ?thesis by (intro same) auto
    next
      case False
      with assms(3) n obj OColumn show ?thesis
        by (intro new[of expression c Sql_isnot]) auto
    qed
  next
    case (OUnaryExpression el op)
    show ?thesis
    proof (cases "op = Op_inv \<and> is_OColumn (lookup h el)")
      case True
      then obtain c where lc: "lookup h el = Some (OColumn c)"
        by (cases "lookup h el" rule: is_OColumn.cases) auto
      with True assms(3) n obj OUnaryExpression clause_refs_of_column[OF lc, of n]
      show ?thesis
        by (intro new[of el c Sql_is]) auto
    next
      case False
      with assms(3) n obj OUnaryExpression show ?thesis by (intro same) auto
    qed
  next
    case (OAsBoolean el op)
    with assms(1) n obj obtain c where c: "lookup h el = Some (OColumn c)"
      by (auto split: option.splits object.splits)
    show ?thesis
    proof (cases "op = Op_inv")
      case True
      with assms(3) n obj OAsBoolean c show ?thesis
        by (intro new[of el c Sql_is]) auto
    next
      case False
      with assms(3) n obj OAsBoolean c show ?thesis by (intro same) auto
    qed
  next
    case (OBooleanClauseList op cs)
    with assms n obj show ?thesis by (auto split: option.splits)
  next
    case (OBindParameter v)
    with assms(3) n obj have "sql_obj = expression" "h' = h" by auto
    then show ?thesis by (rule same)
  next
    case (OGrouping els)
    with assms(3) n obj have "sql_obj = expression" "h' = h" by auto
    then show ?thesis by (rule same)
  next
    case ONull
    with assms(3) n obj have "sql_obj = expression" "h' = h" by auto
    then show ?thesis by (rule same)
  next
    case (OBinaryExpression l r op)
    with assms(3) n obj have "sql_obj = expression" "h' = h" by auto
    then show ?thesis by (rule same)
  next
    case (OUnsupported name)
    with assms(3) n obj have "sql_obj = expression" "h' = h" by auto
    then show ?thesis by (rule same)
  qed
qed

lemma rephrase_clauses_h_trees:
  assumes R: "\<And>h r t. tree_of n h r = Some t \<Longrightarrow> distinct (clause_refs n h r) \<Longrightarrow>
       \<exists>r' h'. rephrase_as_boolean_h n h r = Some (r', h')
         \<and> rewrites_only h h' (set (clause_refs n h r))
         \<and> tree_of (Suc n) h' r' = Some (rephrase_as_boolean t)
         \<and> set (clause_refs (Suc n) h' r') \<subseteq> set (clause_refs n h r) \<union> {length h..<length h'}"
  shows "trees_of n h cs = Some ts \<Longrightarrow> distinct (clause_refs_list n h cs) \<Longrightarrow>
       \<exists>cs' h'. rephrase_clauses_h n h cs = Some (cs', h')
         \<and> rewrites_only h h' (set (clause_refs_list n h cs))
         \<and> trees_of (Suc n) h' cs' = Some (map rephrase_as_boolean ts)
         \<and> set (clause_refs_list (Suc n) h' cs')
              \<subseteq> set (clause_refs_list n h cs) \<union> {length h..<length h'}"
proof (induction cs arbitrary: h ts)
  case Nil
  then show ?case by (auto simp: rewrites_only_refl)
next
  case (Cons c cs)
  let ?A = "clause_refs n h c" and ?B = "clause_refs_list n h cs"
  from Cons.prems(1) obtain tc ts' where t: "tree_of n h c = Some tc"
      "trees_of n h cs = Some ts'" "ts = tc # ts'"
    by (auto split: option.splits)
  from Cons.prems(2) have d: "distinct ?A" "distinct ?B" "set ?A \<inter> set ?B = {}" by auto
  from R[OF t(1) d(1)] obtain c' h1 where c':
      "rephrase_as_boolean_h n h c = Some (c', h1)"
      "rewrites_only h h1 (set ?A)"
      "tree_of (Suc n) h1 c' = Some (rephrase_as_boolean tc)"
      "set (clause_refs (Suc n) h1 c') \<subseteq> set ?A \<union> {length h..<length h1}"
    by blast
  from d(3) have "set ?B \<inter> set ?A = {}" by auto
  from frame_tree_of(2)[OF t(2) c'(2) this]
  have cs1: "trees_of n h1 cs = Some ts'" "clause_refs_list n h1 cs = ?B" by auto
  with d(2) have "distinct (clause_refs_list n h1 cs)" by simp
  from Cons.IH[OF cs1(1) this] cs1(2) obtain cs' h2 where cs':
      "rephrase_clauses_h n h1 cs = Some (cs', h2)"
      "rewrites_only h1 h2 (set ?B)"
      "trees_of (Suc n) h2 cs' = Some (map rephrase_as_boolean ts')"
      "set (clause_refs_list (Suc n) h2 cs') \<subseteq> set ?B \<union> {length h1..<length h2}"
    by auto
  have len: "length h \<le> length h1" "length h1 \<le> length h2"
    using c'(2) cs'(2) by (auto simp: rewrites_only_def)
  have "set (clause_refs (Suc n) h1 c') \<inter> set ?B = {}"
  proof -
    have "\<And>x. x \<in> set ?B \<Longrightarrow> x < length h" by (rule clause_refs_valid(2))
    with c'(4) d(3) show ?thesis by fastforce
  qed
  from frame_tree_of(1)[OF c'(3) cs'(2) this]
  have c2: "tree_of (Suc n) h2 c' = Some (rephrase_as_boolean tc)"
      "clause_refs (Suc n) h2 c' = clause_refs (Suc n) h1 c'"
    by auto
  have 1: "rephrase_clauses_h n h (c # cs) = Some (c' # cs', h2)"
    using c'(1) cs'(1) by simp
  have 2: "rewrites_only h h2 (set (clause_refs_list n h (c # cs)))"
    using rewrites_only_trans[OF c'(2) cs'(2)] by simp
  have 3: "trees_of (Suc n) h2 (c' # cs') = Some (map rephrase_as_boolean ts)"
    using c2(1) cs'(3) t(3) by (simp del: tree_of.simps)
  have 4: "set (clause_refs_list (Suc n) h2 (c' # cs'))
              \<subseteq> set (clause_refs_list n h (c # cs)) \<union> {length h..<length h2}"
    using c2(2) c'(4) cs'(4) len by (auto simp del: clause_refs.simps)
  from 1 2 3 4 show ?case by blast
qed

lemma rephrase_h_tree:
  "tree_of n h r = Some t \<Longrightarrow> distinct (clause_refs n h r) \<Longrightarrow>
     \<exists>r' h'. rephrase_as_boolean_h n h r = Some (r', h')
       \<and> rewrites_only h h' (set (clause_refs n h r))
       \<and> tree_of (Suc n) h' r' = Some (rephrase_as_boolean t)
       \<and> set (clause_refs (Suc n) h' r') \<subseteq> set (clause_refs n h r) \<union> {length h..<length h'}"
proof (induction n arbitrary: h r t)
  case 0
  then show ?case by simp
next
  case (Suc n)
  show ?case
  proof (cases "is_BooleanClauseList t")
    case False
    from rephrase_h_not_clause_list[OF Suc.prems(1) False] obtain sql_obj new where
      s: "rephrase_as_boolean_h (Suc n) h r = Some (sql_obj, h @ new)"
         "tree_of (Suc (Suc n)) (h @ new) sql_obj = Some (rephrase_as_boolean t)"
      by blast
    from rephrase_h_not_clause_list_refs[OF Suc.prems(1) False s(1)]
    have "set (clause_refs (Suc (Suc n)) (h @ new) sql_obj)
            \<subseteq> set (clause_refs (Suc n) h r) \<union> {length h..<length (h @ new)}"
      by simp
    with s rewrites_only_append[of h new] show ?thesis by blast
  next
    case True
    from Suc.prems(1) obtain obj where obj: "lookup h r = Some obj"
      by (auto split: option.splits)
    from True Suc.prems(1) obj obtain op cs ts where
      cl: "obj = OBooleanClauseList op cs" "trees_of n h cs = Some ts"
          "t = BooleanClauseList op ts"
      by (cases obj) (auto split: option.splits object.splits)
    let ?B = "clause_refs_list n h cs"
    from Suc.prems(2) obj cl(1) have d: "r \<notin> set ?B" "distinct ?B" by auto
    from rephrase_clauses_h_trees[OF Suc.IH cl(2) d(2)] obtain cs' h1 where cs':
        "rephrase_clauses_h n h cs = Some (cs', h1)"
        "rewrites_only h h1 (set ?B)"
        "trees_of (Suc n) h1 cs' = Some (map rephrase_as_boolean ts)"
        "set (clause_refs_list (Suc n) h1 cs') \<subseteq> set ?B \<union> {length h..<length h1}"
      by blast
    let ?h' = "h1[r := OBooleanClauseList op cs']"
    have rl: "r < length h" using obj by (rule lookup_Some_less)
    have len: "length h \<le> length h1" using cs'(2) by (simp add: rewrites_only_def)
    have l1: "lookup h1 r = Some (OBooleanClauseList op cs)"
      using lookup_rewrites_only[OF obj cs'(2)] d(1) cl(1) by simp
    have up: "rewrites_only h1 ?h' {r}" using l1 by (rule rewrites_only_update)
    have 1: "rephrase_as_boolean_h (Suc n) h r = Some (r, ?h')"
      using obj cl(1) cs'(1) by simp
    have 2: "rewrites_only h ?h' (set (clause_refs (Suc n) h r))"
      using rewrites_only_trans[OF cs'(2) up] obj cl(1)
      by (auto elim: rewrites_only_mono)
    have nr: "set (clause_refs_list (Suc n) h1 cs') \<inter> {r} = {}"
      using cs'(4) d(1) rl by auto
    from frame_tree_of(2)[OF cs'(3) up nr]
    have f: "trees_of (Suc n) ?h' cs' = Some (map rephrase_as_boolean ts)"
        "clause_refs_list (Suc n) ?h' cs' = clause_refs_list (Suc n) h1 cs'"
      by auto
    have l': "lookup ?h' r = Some (OBooleanClauseList op cs')"
      using rl len by (simp add: lookup_def)
    have 3: "tree_of (Suc (Suc n)) ?h' r = Some (rephrase_as_boolean t)"
      using l' f(1) cl(3) by (simp del: tree_of.simps add: tree_of.simps(2)[of "Suc n"])
    have 4: "set (clause_refs (Suc (Suc n)) ?h' r)
               \<subseteq> set (clause_refs (Suc n) h r) \<union> {length h..<length ?h'}"
      using l' f(2) cs'(4) obj cl(1)
      by (auto simp del: clause_refs.simps
            simp add: clause_refs.simps(2)[of "Suc n"] clause_refs.simps(2)[of n])
    from 1 2 3 4 show ?thesis by blast
  qed
qed

lemma rephrase_h_clause_list_same_object:
  "tree_of n h r = Some t \<Longrightarrow> is_BooleanClauseList t \<Longrightarrow>
   rephrase_as_boolean_h n h r = Some (r', h') \<Longrightarrow> r' = r"
  by (cases n; cases "lookup h r")
     (auto split: object.splits option.splits)

text \<open>
  C5, as the source has it. Without \<open>force_bool\<close> the store is left as it was. With
  \<open>force_bool\<close>, when the root of the caller's tree is not a clause list, no existing
  object is changed: the store only grows by the new nodes, the caller's reference
  denotes the same tree as before, and the stored \<open>sql\<close> denotes the rewritten tree.
  When the root is a clause list and no clause-list object occurs twice in the tree,
  compilation with one more level of recursion than the tree is deep returns, the
  stored \<open>sql\<close> is the caller's own object, and afterwards the caller's reference
  denotes the rewritten tree: every clause is replaced in place by its coerced form.
  The symbols are those of the value-level constructor, and no object other than the
  clause lists of the tree is changed.
\<close>

theorem force_bool_frame:
  assumes "tree_of fuel h expression = Some tree"
  shows "(\<exists>result. Expression_init_h fuel h expression False = Some (result, h))
    \<and> (\<not> is_BooleanClauseList tree \<longrightarrow>
         (\<exists>result new. Expression_init_h fuel h expression True = Some (result, h @ new)
            \<and> tree_of fuel (h @ new) expression = Some tree
            \<and> (\<forall>self. result = Inr self \<longrightarrow>
                  tree_of (Suc fuel) (h @ new) (sql_ref self) = Some (rephrase_as_boolean tree))))
    \<and> (is_BooleanClauseList tree \<and> distinct (clause_refs fuel h expression) \<longrightarrow>
         (\<exists>h'. Expression_init_h (Suc fuel) h expression True =
                 Some (map_sum id
                         (\<lambda>compiled. \<lparr>sql_ref = expression, serialized_h = serialized compiled\<rparr>)
                         (Expression_init tree True), h')
            \<and> tree_of (Suc fuel) h' expression = Some (rephrase_as_boolean tree)
            \<and> rewrites_only h h' (set (clause_refs fuel h expression))))"
proof (intro conjI impI)
  show "\<exists>result. Expression_init_h fuel h expression False = Some (result, h)"
    using assms by (simp add: Expression_init_h_def)
next
  assume "\<not> is_BooleanClauseList tree"
  from rephrase_h_not_clause_list[OF assms this] obtain sql_obj new where
    r: "rephrase_as_boolean_h fuel h expression = Some (sql_obj, h @ new)"
       "tree_of (Suc fuel) (h @ new) sql_obj = Some (rephrase_as_boolean tree)"
    by blast
  have t: "tree_of fuel (h @ new) expression = Some tree"
    using tree_of_append(1)[OF assms] .
  show "\<exists>result new. Expression_init_h fuel h expression True = Some (result, h @ new)
            \<and> tree_of fuel (h @ new) expression = Some tree
            \<and> (\<forall>self. result = Inr self \<longrightarrow>
                  tree_of (Suc fuel) (h @ new) (sql_ref self) = Some (rephrase_as_boolean tree))"
    using r t
    by (intro exI[of _ "case serialize tree True of Inl e \<Rightarrow> Inl e
          | Inr symbols \<Rightarrow> Inr \<lparr>sql_ref = sql_obj, serialized_h = symbols\<rparr>"] exI[of _ new])
       (auto simp: Expression_init_h_def split: sum.splits)
next
  assume a: "is_BooleanClauseList tree \<and> distinct (clause_refs fuel h expression)"
  from rephrase_h_tree[OF assms] a obtain r' h' where r:
      "rephrase_as_boolean_h fuel h expression = Some (r', h')"
      "rewrites_only h h' (set (clause_refs fuel h expression))"
      "tree_of (Suc fuel) h' r' = Some (rephrase_as_boolean tree)"
    by blast
  from rephrase_h_clause_list_same_object[OF assms _ r(1)] a have same: "r' = expression"
    by simp
  from rephrase_h_more_fuel[OF r(1)] same
  have r1: "rephrase_as_boolean_h (Suc fuel) h expression = Some (expression, h')" by simp
  from a obtain op clauses where tr: "tree = BooleanClauseList op clauses"
    by (cases tree) auto
  have "Expression_init_h (Suc fuel) h expression True =
          Some (map_sum id
                  (\<lambda>compiled. \<lparr>sql_ref = expression, serialized_h = serialized compiled\<rparr>)
                  (Expression_init tree True), h')"
    using r1 r(3) same tr
    by (simp add: Expression_init_h_def Expression_init_def
          del: tree_of.simps rephrase_as_boolean_h.simps split: sum.splits)
  with r(2) r(3) same
  show "\<exists>h'. Expression_init_h (Suc fuel) h expression True =
                 Some (map_sum id
                         (\<lambda>compiled. \<lparr>sql_ref = expression, serialized_h = serialized compiled\<rparr>)
                         (Expression_init tree True), h')
            \<and> tree_of (Suc fuel) h' expression = Some (rephrase_as_boolean tree)
            \<and> rewrites_only h h' (set (clause_refs fuel h expression))"
    by blast
qed

theorem force_bool_frame_witness:
  "tree_of 1 [OColumn \<lparr>column_name = ''age'', column_type = Integer\<rparr>] 0 = Some (Column \<lparr>column_name = ''age'', column_type = Integer\<rparr>)
   \<and> \<not> is_BooleanClauseList (Column \<lparr>column_name = ''age'', column_type = Integer\<rparr>)
   \<and> Expression_init_h 1 [OColumn \<lparr>column_name = ''age'', column_type = Integer\<rparr>] 0 False =
     Some (Inr \<lparr>sql_ref = 0, serialized_h = [Symbol (PColumn \<lparr>column_name = ''age'', column_type = Integer\<rparr>) None]\<rparr>, [OColumn \<lparr>column_name = ''age'', column_type = Integer\<rparr>])
   \<and> Expression_init_h 1 [OColumn \<lparr>column_name = ''age'', column_type = Integer\<rparr>] 0 True =
     Some (Inr \<lparr>sql_ref = 2,
                serialized_h = [Symbol (PValue VNone) None, Symbol (PColumn \<lparr>column_name = ''age'', column_type = Integer\<rparr>) None,
                  Symbol (PCallable Op_ne) (Some 2)]\<rparr>,
           [OColumn \<lparr>column_name = ''age'', column_type = Integer\<rparr>] @ [ONull, OBinaryExpression 0 1 Sql_isnot])
   \<and> tree_of 2 ([OColumn \<lparr>column_name = ''age'', column_type = Integer\<rparr>] @ [ONull, OBinaryExpression 0 1 Sql_isnot]) 2 =
     Some (rephrase_as_boolean (Column \<lparr>column_name = ''age'', column_type = Integer\<rparr>))
   \<and> tree_of 3 [OColumn \<lparr>column_name = ''age'', column_type = Integer\<rparr>, OColumn \<lparr>column_name = ''name'', column_type = Unicode\<rparr>, OBooleanClauseList Op_or [1], OBooleanClauseList Op_and [0, 2]] 3 = Some (BooleanClauseList Op_and [Column \<lparr>column_name = ''age'', column_type = Integer\<rparr>, BooleanClauseList Op_or [Column \<lparr>column_name = ''name'', column_type = Unicode\<rparr>]])
   \<and> is_BooleanClauseList (BooleanClauseList Op_and [Column \<lparr>column_name = ''age'', column_type = Integer\<rparr>, BooleanClauseList Op_or [Column \<lparr>column_name = ''name'', column_type = Unicode\<rparr>]])
   \<and> distinct (clause_refs 3 [OColumn \<lparr>column_name = ''age'', column_type = Integer\<rparr>, OColumn \<lparr>column_name = ''name'', column_type = Unicode\<rparr>, OBooleanClauseList Op_or [1], OBooleanClauseList Op_and [0, 2]] 3)
   \<and> Expression_init_h 4 [OColumn \<lparr>column_name = ''age'', column_type = Integer\<rparr>, OColumn \<lparr>column_name = ''name'', column_type = Unicode\<rparr>, OBooleanClauseList Op_or [1], OBooleanClauseList Op_and [0, 2]] 3 True =
     Some (Inr \<lparr>sql_ref = 3,
                serialized_h = [Symbol (PValue VNone) None, Symbol (PColumn \<lparr>column_name = ''age'', column_type = Integer\<rparr>) None,
                  Symbol (PCallable Op_ne) (Some 2),
                  Symbol (PValue VNone) None, Symbol (PColumn \<lparr>column_name = ''name'', column_type = Unicode\<rparr>) None,
                  Symbol (PCallable Op_ne) (Some 2),
                  Symbol (PCallable Op_or) (Some 1), Symbol (PCallable Op_and) (Some 2)]\<rparr>,
           [OColumn \<lparr>column_name = ''age'', column_type = Integer\<rparr>, OColumn \<lparr>column_name = ''name'', column_type = Unicode\<rparr>, OBooleanClauseList Op_or [7], OBooleanClauseList Op_and [5, 2],
            ONull, OBinaryExpression 0 4 Sql_isnot, ONull, OBinaryExpression 1 6 Sql_isnot])
   \<and> tree_of 4 [OColumn \<lparr>column_name = ''age'', column_type = Integer\<rparr>, OColumn \<lparr>column_name = ''name'', column_type = Unicode\<rparr>, OBooleanClauseList Op_or [7], OBooleanClauseList Op_and [5, 2],
            ONull, OBinaryExpression 0 4 Sql_isnot, ONull, OBinaryExpression 1 6 Sql_isnot] 3 =
     Some (BooleanClauseList Op_and
            [BinaryExpression (Column \<lparr>column_name = ''age'', column_type = Integer\<rparr>) Null Sql_isnot,
             BooleanClauseList Op_or [BinaryExpression (Column \<lparr>column_name = ''name'', column_type = Unicode\<rparr>) Null Sql_isnot]])"
  using force_bool_frame [of 1 "[OColumn \<lparr>column_name = ''age'', column_type = Integer\<rparr>]" 0 "Column \<lparr>column_name = ''age'', column_type = Integer\<rparr>"]
    force_bool_frame [of 3 "[OColumn \<lparr>column_name = ''age'', column_type = Integer\<rparr>, OColumn \<lparr>column_name = ''name'', column_type = Unicode\<rparr>, OBooleanClauseList Op_or [1], OBooleanClauseList Op_and [0, 2]]" 3 "BooleanClauseList Op_and [Column \<lparr>column_name = ''age'', column_type = Integer\<rparr>, BooleanClauseList Op_or [Column \<lparr>column_name = ''name'', column_type = Unicode\<rparr>]]"]
  by (simp add: eval_nat_numeral Expression_init_h_def Expression_init_def lookup_def
        compare_None_h_def allocate_def binary_payload_def isnot_None_def)

text \<open>
  The caller's tree is modified when its root is a clause list: \<open>and_(age)\<close> denotes
  \<open>and_(age IS NOT NULL)\<close> after compilation with \<open>force_bool\<close>.
\<close>

theorem clause_list_rewritten_in_place_counterexample:
  "tree_of 3 [OColumn \<lparr>column_name = ''age'', column_type = Integer\<rparr>, OBooleanClauseList Op_and [0]] 1 = Some (BooleanClauseList Op_and [Column \<lparr>column_name = ''age'', column_type = Integer\<rparr>])
   \<and> Expression_init_h 3 [OColumn \<lparr>column_name = ''age'', column_type = Integer\<rparr>, OBooleanClauseList Op_and [0]] 1 True =
     Some (Inr \<lparr>sql_ref = 1,
                serialized_h = [Symbol (PValue VNone) None, Symbol (PColumn \<lparr>column_name = ''age'', column_type = Integer\<rparr>) None,
                  Symbol (PCallable Op_ne) (Some 2), Symbol (PCallable Op_and) (Some 1)]\<rparr>,
           [OColumn \<lparr>column_name = ''age'', column_type = Integer\<rparr>, OBooleanClauseList Op_and [3], ONull, OBinaryExpression 0 2 Sql_isnot])
   \<and> tree_of 3 [OColumn \<lparr>column_name = ''age'', column_type = Integer\<rparr>, OBooleanClauseList Op_and [3], ONull, OBinaryExpression 0 2 Sql_isnot] 1 =
     Some (BooleanClauseList Op_and [BinaryExpression (Column \<lparr>column_name = ''age'', column_type = Integer\<rparr>) Null Sql_isnot])"
  by (simp add: eval_nat_numeral Expression_init_h_def lookup_def compare_None_h_def
        allocate_def binary_payload_def)

text \<open>
  Why the clause lists have to form a tree. In \<open>and_(x, not_(x))\<close> with the one object
  \<open>x = or_(age)\<close> in both places, rewriting the first clause changes \<open>x\<close> itself, so the
  second clause, which the rewrite returns as it is, denotes \<open>not_(or_(age IS NOT NULL))\<close>
  afterwards and not \<open>not_(or_(age))\<close>.
\<close>

lemma shared_clause_list_example:
  "clause_refs 4 [OColumn \<lparr>column_name = ''age'', column_type = Integer\<rparr>,
       OBooleanClauseList Op_or [0], OUnaryExpression 1 Op_not,
       OBooleanClauseList Op_and [1, 2]] 3 = [3, 1, 1]
   \<and> tree_of 4 [OColumn \<lparr>column_name = ''age'', column_type = Integer\<rparr>,
       OBooleanClauseList Op_or [0], OUnaryExpression 1 Op_not,
       OBooleanClauseList Op_and [1, 2]] 3 =
     Some (BooleanClauseList Op_and
            [BooleanClauseList Op_or [Column \<lparr>column_name = ''age'', column_type = Integer\<rparr>],
             UnaryExpression
               (BooleanClauseList Op_or
                  [Column \<lparr>column_name = ''age'', column_type = Integer\<rparr>]) Op_not])
   \<and> rephrase_as_boolean_h 4 [OColumn \<lparr>column_name = ''age'', column_type = Integer\<rparr>,
       OBooleanClauseList Op_or [0], OUnaryExpression 1 Op_not,
       OBooleanClauseList Op_and [1, 2]] 3 =
     Some (3, [OColumn \<lparr>column_name = ''age'', column_type = Integer\<rparr>,
       OBooleanClauseList Op_or [5], OUnaryExpression 1 Op_not,
       OBooleanClauseList Op_and [1, 2], ONull, OBinaryExpression 0 4 Sql_isnot])
   \<and> tree_of 5 [OColumn \<lparr>column_name = ''age'', column_type = Integer\<rparr>,
       OBooleanClauseList Op_or [5], OUnaryExpression 1 Op_not,
       OBooleanClauseList Op_and [1, 2], ONull, OBinaryExpression 0 4 Sql_isnot] 3 =
     Some (BooleanClauseList Op_and
            [BooleanClauseList Op_or
               [BinaryExpression (Column \<lparr>column_name = ''age'', column_type = Integer\<rparr>)
                  Null Sql_isnot],
             UnaryExpression
               (BooleanClauseList Op_or
                  [BinaryExpression (Column \<lparr>column_name = ''age'', column_type = Integer\<rparr>)
                     Null Sql_isnot]) Op_not])
   \<and> rephrase_as_boolean
       (BooleanClauseList Op_and
            [BooleanClauseList Op_or [Column \<lparr>column_name = ''age'', column_type = Integer\<rparr>],
             UnaryExpression
               (BooleanClauseList Op_or
                  [Column \<lparr>column_name = ''age'', column_type = Integer\<rparr>]) Op_not]) =
     BooleanClauseList Op_and
            [BooleanClauseList Op_or
               [BinaryExpression (Column \<lparr>column_name = ''age'', column_type = Integer\<rparr>)
                  Null Sql_isnot],
             UnaryExpression
               (BooleanClauseList Op_or
                  [Column \<lparr>column_name = ''age'', column_type = Integer\<rparr>]) Op_not]"
  by (simp add: eval_nat_numeral lookup_def compare_None_h_def allocate_def isnot_None_def)

end
